theory Spec2Isabelle
  imports Complex_Main
begin

section \<open>Gauss-Seidel auction runner: errors, configuration, state\<close>

text \<open>
  The development embeds \<^verbatim>\<open>src/hera/wasserstein/auction_runner_gs.hpp\<close>.
  The values of the scalar type \<^verbatim>\<open>Real\<close> are read as real numbers: rounding,
  overflow, infinities and NaN are outside the model, and so is a division by zero (a
  \<open>wasserstein_power\<close> or a \<open>q\<close>-th root that is zero), where HOL's
  \<open>x / 0 = 0\<close> is not what the machine computes.  One operation is not read as
  the operation of the reals: the division by which the phase loop derives the next
  epsilon from the current one.  The loop feeds its result back into itself, and the
  division of a floating-point type rounds and underflows (a \<^verbatim>\<open>double\<close> that
  starts at \<open>1\<close> and is divided by \<open>5\<close> again and again is exactly \<open>0\<close> after
  463 divisions), so that division is the scalar type's own, a parameter
  \<open>scalar_div\<close> of which nothing is assumed.  An index of type
  \<^verbatim>\<open>IdxType\<close> is either a position or the sentinel \<^verbatim>\<open>k_invalid_index\<close>;
  the header declaring the sentinel is not part of the source file, so a ledger
  entry is a \<open>nat option\<close> with \<open>None\<close> for the sentinel.  Used as a vector
  position the sentinel is out of range.
\<close>

datatype error =
    AssertionFailed
  | UndefinedBehaviour
  | OutOfRange
  | MaxIterExceeded
  | NoPerfectMatching
  | InvalidIdx
  | WrongSize
  | Duplicate
  | InconsistentMapping

text \<open>
  \<open>AssertionFailed\<close>: an \<^verbatim>\<open>assert\<close> fails in a build without \<^verbatim>\<open>NDEBUG\<close>.
  \<open>UndefinedBehaviour\<close>: \<^verbatim>\<open>operator[]\<close> out of range, or \<^verbatim>\<open>*begin()\<close> of an empty set.
  \<open>OutOfRange\<close>: \<^verbatim>\<open>std::out_of_range\<close> thrown by \<^verbatim>\<open>vector::at\<close>.
  The others are the \<^verbatim>\<open>std::runtime_error\<close>s of the source, one constructor per message.
\<close>

type_synonym idx = "nat option"

abbreviation k_invalid_index :: idx where
  "k_invalid_index \<equiv> None"

record auction_params =
  wasserstein_power :: real
  internal_p :: real
  dim :: nat
  delta :: real
  initial_epsilon :: real
  epsilon_common_ratio :: real
  max_num_phases :: int
  tolerate_max_iter_exceeded :: bool
  return_matching :: bool

record auction_result =
  cost :: real
  distance :: real
  num_rounds :: nat
  num_phases :: nat
  start_epsilon :: real
  final_epsilon :: real
  final_relative_error :: real
  prices :: "real list"
  matching :: "(int \<times> int) list"

text \<open>
  Everything the runner is generic in or included from elsewhere: the oracle class
  \<^verbatim>\<open>AO\<close> (over its own state \<open>'o\<close>), the ground distance, \<^verbatim>\<open>std::pow\<close>, the
  division of the scalar type \<^verbatim>\<open>R\<close>, the identifiers of points, the iteration
  order of the unordered set of unassigned bidders, and the two preprocessor switches.
\<close>

record ('o, 'p) env =
  new_oracle :: "'p list \<Rightarrow> 'p list \<Rightarrow> auction_params \<Rightarrow> 'o"
  set_prices :: "real list \<Rightarrow> 'o \<Rightarrow> 'o"
  get_prices :: "'o \<Rightarrow> real list"
  max_val :: "'o \<Rightarrow> real"
  set_epsilon :: "real \<Rightarrow> 'o \<Rightarrow> 'o"
  get_epsilon :: "'o \<Rightarrow> real"
  adjust_prices :: "'o \<Rightarrow> 'o"
  get_optimal_bid :: "'o \<Rightarrow> nat \<Rightarrow> (nat \<times> real) \<times> 'o"
  set_price :: "nat \<Rightarrow> real \<Rightarrow> 'o \<Rightarrow> 'o"
  dist_lp :: "'p \<Rightarrow> 'p \<Rightarrow> real \<Rightarrow> nat \<Rightarrow> real"
  std_pow :: "real \<Rightarrow> real \<Rightarrow> real"
  scalar_div :: "real \<Rightarrow> real \<Rightarrow> real"
  get_id :: "'p \<Rightarrow> int"
  set_begin :: "nat set \<Rightarrow> nat"
  DEBUG_AUCTION :: bool
  NDEBUG :: bool

record ('o, 'p) runner =
  bidders :: "'p list"
  items :: "'p list"
  num_bidders :: nat
  num_items :: nat
  items_to_bidders :: "idx list"
  bidders_to_items :: "idx list"
  params :: auction_params
  oracle_st :: 'o
  unassigned_bidders :: "nat set"
  result :: auction_result
  is_distance_computed :: bool

text \<open>\<^verbatim>\<open>std::numeric_limits<Real>::max()\<close> for \<^verbatim>\<open>Real = double\<close>.\<close>

definition Real_max :: real where
  "Real_max = 2 ^ 1024 - 2 ^ 971"

text \<open>
  Modelled from the spec: the result structure is declared outside the source file;
  it is allocated once per run with its counters at zero and an empty matching.
\<close>

definition empty_result :: auction_result where
  "empty_result =
     \<lparr>cost = 0, distance = 0, num_rounds = 0, num_phases = 0, start_epsilon = 0,
      final_epsilon = 0, final_relative_error = Real_max, prices = [], matching = []\<rparr>"

text \<open>\<^verbatim>\<open>assert(c)\<close>: compiled out under \<^verbatim>\<open>NDEBUG\<close>, a fault otherwise.\<close>

definition assert_fails :: "('o, 'p) env \<Rightarrow> bool \<Rightarrow> bool" where
  "assert_fails E c = (\<not> NDEBUG E \<and> \<not> c)"

text \<open>A loop over a range that stops at the first exception.\<close>

fun for_each :: "('a \<Rightarrow> error + unit) \<Rightarrow> 'a list \<Rightarrow> error + unit" where
  "for_each f [] = Inr ()"
| "for_each f (x # xs) = (case f x of Inl e \<Rightarrow> Inl e | Inr _ \<Rightarrow> for_each f xs)"

section \<open>The constructor\<close>

definition AuctionRunnerGS ::
  "('o, 'p) env \<Rightarrow> 'p list \<Rightarrow> 'p list \<Rightarrow> auction_params \<Rightarrow> real list \<Rightarrow> error + ('o, 'p) runner" where
  "AuctionRunnerGS E A B p0 prices0 =
     (let orc0 = new_oracle E A B p0;
          orc = (if prices0 \<noteq> [] then set_prices E prices0 orc0 else orc0);
          p1 = (if epsilon_common_ratio p0 = 0 then p0\<lparr>epsilon_common_ratio := 5\<rparr> else p0);
          p2 = (if initial_epsilon p1 = 0 then p1\<lparr>initial_epsilon := max_val E orc / 4\<rparr> else p1)
      in if assert_fails E (initial_epsilon p2 > 0) then Inl AssertionFailed
         else if assert_fails E (epsilon_common_ratio p2 > 0) then Inl AssertionFailed
         else if assert_fails E (length A = length B) then Inl AssertionFailed
         else Inr \<lparr>bidders = A, items = B, num_bidders = length A, num_items = length B,
                   items_to_bidders = replicate (length B) k_invalid_index,
                   bidders_to_items = replicate (length A) k_invalid_index,
                   params = p2, oracle_st = orc, unassigned_bidders = {},
                   result = empty_result, is_distance_computed = False\<rparr>)"

section \<open>The assignment ledger\<close>

definition check_bidder :: "('o, 'p) env \<Rightarrow> ('o, 'p) runner \<Rightarrow> nat \<Rightarrow> error + unit" where
  "check_bidder E s bidder_idx =
     (case bidders_to_items s ! bidder_idx of
        None \<Rightarrow> Inr ()
      | Some i \<Rightarrow>
          if assert_fails E (i < num_items s) then Inl AssertionFailed
          else if count_list (bidders_to_items s) (Some i) > 1 then Inl Duplicate
          else if \<not> i < length (items_to_bidders s) then Inl OutOfRange
          else if items_to_bidders s ! i \<noteq> Some bidder_idx then Inl InconsistentMapping
          else Inr ())"

definition check_item :: "('o, 'p) env \<Rightarrow> ('o, 'p) runner \<Rightarrow> nat \<Rightarrow> error + unit" where
  "check_item E s item_idx =
     (case items_to_bidders s ! item_idx of
        None \<Rightarrow> Inr ()
      | Some b \<Rightarrow>
          if assert_fails E (b < num_items s) then Inl AssertionFailed
          else if count_list (items_to_bidders s) (Some b) > 1 then Inl Duplicate
          else if \<not> b < length (bidders_to_items s) then Inl OutOfRange
          else if bidders_to_items s ! b \<noteq> Some item_idx then Inl InconsistentMapping
          else Inr ())"

definition sanity_check :: "('o, 'p) env \<Rightarrow> ('o, 'p) runner \<Rightarrow> error + unit" where
  "sanity_check E s =
     (if \<not> DEBUG_AUCTION E then Inr ()
      else if length (bidders_to_items s) \<noteq> num_bidders s then Inl WrongSize
      else if length (items_to_bidders s) \<noteq> num_bidders s then Inl WrongSize
      else case for_each (check_bidder E s) [0..<num_bidders s] of
             Inl e \<Rightarrow> Inl e
           | Inr _ \<Rightarrow> for_each (check_item E s) [0..<num_bidders s])"

definition assign_item_to_bidder ::
  "('o, 'p) env \<Rightarrow> nat \<Rightarrow> nat \<Rightarrow> ('o, 'p) runner \<Rightarrow> error + ('o, 'p) runner" where
  "assign_item_to_bidder E item_idx bidder_idx s =
     (let s1 = s\<lparr>result := (result s)\<lparr>num_rounds := num_rounds (result s) + 1\<rparr>\<rparr>
      in case sanity_check E s1 of
           Inl e \<Rightarrow> Inl e
         | Inr _ \<Rightarrow>
             if \<not> bidder_idx < length (bidders_to_items s1) then Inl UndefinedBehaviour
             else if assert_fails E (bidders_to_items s1 ! bidder_idx = k_invalid_index)
               then Inl AssertionFailed
             else if \<not> item_idx < length (items_to_bidders s1) then Inl UndefinedBehaviour
             else
               (let old_item_owner = items_to_bidders s1 ! item_idx;
                    s2 = s1\<lparr>bidders_to_items := list_update (bidders_to_items s1) bidder_idx (Some item_idx)\<rparr>;
                    s3 = s2\<lparr>items_to_bidders := list_update (items_to_bidders s2) item_idx (Some bidder_idx)\<rparr>;
                    s4 = s3\<lparr>unassigned_bidders := unassigned_bidders s3 - {bidder_idx}\<rparr>
                in (case old_item_owner of
                      None \<Rightarrow> Inr s4
                    | Some old \<Rightarrow>
                        if \<not> old < length (bidders_to_items s4) then Inl UndefinedBehaviour
                        else Inr (s4\<lparr>bidders_to_items := list_update (bidders_to_items s4) old k_invalid_index,
                                     unassigned_bidders := insert old (unassigned_bidders s4)\<rparr>))))"

definition flush_assignment :: "('o, 'p) env \<Rightarrow> ('o, 'p) runner \<Rightarrow> error + ('o, 'p) runner" where
  "flush_assignment E s =
     (let s1 = s\<lparr>bidders_to_items := map (\<lambda>_. k_invalid_index) (bidders_to_items s)\<rparr>;
          s2 = s1\<lparr>items_to_bidders := map (\<lambda>_. k_invalid_index) (items_to_bidders s1)\<rparr>
      in if assert_fails E (unassigned_bidders s2 = {}) then Inl AssertionFailed
         else
           let s3 = s2\<lparr>unassigned_bidders := unassigned_bidders s2 \<union> {0..<num_bidders s2}\<rparr>
           in if assert_fails E (card (unassigned_bidders s3) = length (bidders s3))
                then Inl AssertionFailed
              else Inr (s3\<lparr>oracle_st := adjust_prices E (oracle_st s3)\<rparr>))"

section \<open>Costs\<close>

text \<open>
  The declaration gives \<^verbatim>\<open>tolerate_invalid_idx\<close> its default; the two calls in the
  source file pass two arguments, and the spec makes tolerance something the caller
  opts into, so those calls are modelled with \<open>False\<close>.
\<close>

definition get_item_bidder_cost ::
  "('o, 'p) env \<Rightarrow> ('o, 'p) runner \<Rightarrow> idx \<Rightarrow> idx \<Rightarrow> bool \<Rightarrow> error + real" where
  "get_item_bidder_cost E s item_idx bidder_idx tolerate_invalid_idx =
     (if item_idx \<noteq> k_invalid_index \<and> bidder_idx \<noteq> k_invalid_index then
        (if the bidder_idx < length (bidders s) \<and> the item_idx < length (items s) then
           Inr (std_pow E (dist_lp E (bidders s ! the bidder_idx) (items s ! the item_idx)
                             (internal_p (params s)) (dim (params s)))
                          (wasserstein_power (params s)))
         else Inl UndefinedBehaviour)
      else if tolerate_invalid_idx then Inr 0
      else Inl InvalidIdx)"

fun sum_costs :: "('o, 'p) env \<Rightarrow> ('o, 'p) runner \<Rightarrow> nat list \<Rightarrow> real \<Rightarrow> error + real" where
  "sum_costs E s [] r = Inr r"
| "sum_costs E s (bIdx # rest) r =
     (if \<not> bIdx < length (bidders_to_items s) then Inl UndefinedBehaviour
      else (case get_item_bidder_cost E s (bidders_to_items s ! bIdx) (Some bIdx) False of
              Inl e \<Rightarrow> Inl e
            | Inr c \<Rightarrow> sum_costs E s rest (r + c)))"

definition getDistanceToQthPowerInternal ::
  "('o, 'p) env \<Rightarrow> ('o, 'p) runner \<Rightarrow> error + (real \<times> ('o, 'p) runner)" where
  "getDistanceToQthPowerInternal E s =
     (case sanity_check E s of
        Inl e \<Rightarrow> Inl e
      | Inr _ \<Rightarrow>
          (case sum_costs E s [0..<num_bidders s] 0 of
             Inl e \<Rightarrow> Inl e
           | Inr r \<Rightarrow> Inr (r, s\<lparr>result := (result s)\<lparr>cost := r\<rparr>\<rparr>)))"

section \<open>One phase\<close>

text \<open>
  The body of the \<^verbatim>\<open>do ... while\<close> loop: one bidder takes one bid.  Nothing in the
  runner bounds the number of rounds, so the loop carries fuel and \<open>None\<close> stands
  for a loop that has not ended when the fuel is used up.
\<close>

definition bidding_round :: "('o, 'p) env \<Rightarrow> ('o, 'p) runner \<Rightarrow> error + ('o, 'p) runner" where
  "bidding_round E s =
     (if unassigned_bidders s = {} then Inl UndefinedBehaviour
      else
        (let bidder_idx = set_begin E (unassigned_bidders s);
             answer = get_optimal_bid E (oracle_st s) bidder_idx;
             optimal_bid = fst answer;
             optimal_item_idx = fst optimal_bid;
             bid_value = snd optimal_bid
         in (case assign_item_to_bidder E (fst optimal_bid) bidder_idx (s\<lparr>oracle_st := snd answer\<rparr>) of
               Inl e \<Rightarrow> Inl e
             | Inr s1 \<Rightarrow> Inr (s1\<lparr>oracle_st := set_price E optimal_item_idx bid_value (oracle_st s1)\<rparr>))))"

fun bidding_loop :: "('o, 'p) env \<Rightarrow> nat \<Rightarrow> ('o, 'p) runner \<Rightarrow> (error + ('o, 'p) runner) option" where
  "bidding_loop E 0 s = None"
| "bidding_loop E (Suc fuel) s =
     (case bidding_round E s of
        Inl e \<Rightarrow> Some (Inl e)
      | Inr s1 \<Rightarrow> if unassigned_bidders s1 \<noteq> {} then bidding_loop E fuel s1 else Some (Inr s1))"

definition check_assigned :: "('o, 'p) runner \<Rightarrow> nat \<Rightarrow> error + unit" where
  "check_assigned s bidder_idx =
     (if \<not> bidder_idx < length (bidders_to_items s) then Inl UndefinedBehaviour
      else (case bidders_to_items s ! bidder_idx of
              None \<Rightarrow> Inl NoPerfectMatching
            | Some i \<Rightarrow> if i \<ge> num_bidders s then Inl NoPerfectMatching else Inr ()))"

definition run_auction_phase ::
  "('o, 'p) env \<Rightarrow> nat \<Rightarrow> ('o, 'p) runner \<Rightarrow> (error + ('o, 'p) runner) option" where
  "run_auction_phase E fuel s =
     (case bidding_loop E fuel (s\<lparr>result := (result s)\<lparr>num_phases := num_phases (result s) + 1\<rparr>\<rparr>) of
        None \<Rightarrow> None
      | Some (Inl e) \<Rightarrow> Some (Inl e)
      | Some (Inr s1) \<Rightarrow>
          if DEBUG_AUCTION E then
            (case for_each (check_assigned s1) [0..<num_bidders s1] of
               Inl e \<Rightarrow> Some (Inl e)
             | Inr _ \<Rightarrow> Some (Inr s1))
          else Some (Inr s1))"

section \<open>The phase loop\<close>

definition decrease_epsilon :: "('o, 'p) env \<Rightarrow> ('o, 'p) runner \<Rightarrow> ('o, 'p) runner" where
  "decrease_epsilon E s =
     (let s1 = s\<lparr>oracle_st := set_epsilon E (scalar_div E (get_epsilon E (oracle_st s))
                                                (epsilon_common_ratio (params s)))
                                   (oracle_st s)\<rparr>
      in s1\<lparr>result := (result s1)\<lparr>final_epsilon := get_epsilon E (oracle_st s1)\<rparr>\<rparr>)"

text \<open>
  The rest of the loop body after the cost is known.  The flag of the result is
  \<open>True\<close> when the body leaves the loop by \<^verbatim>\<open>break\<close>.
\<close>

definition evaluate_phase ::
  "('o, 'p) env \<Rightarrow> real \<Rightarrow> ('o, 'p) runner \<Rightarrow> bool \<times> ('o, 'p) runner" where
  "evaluate_phase E current_cost s =
     (let denominator = current_cost - real (num_bidders s) * get_epsilon E (oracle_st s);
          current_result = std_pow E current_cost (1 / wasserstein_power (params s))
      in if denominator > 0 then
           (let denominator' = std_pow E denominator (1 / wasserstein_power (params s));
                numerator = current_result - denominator';
                s1 = s\<lparr>result := (result s)\<lparr>final_relative_error := numerator / denominator'\<rparr>\<rparr>
            in if final_relative_error (result s1) \<le> delta (params s1) then (True, s1)
               else (False, decrease_epsilon E s1))
         else (False, decrease_epsilon E s))"

definition phase_iteration ::
  "('o, 'p) env \<Rightarrow> nat \<Rightarrow> ('o, 'p) runner \<Rightarrow> (error + (bool \<times> ('o, 'p) runner)) option" where
  "phase_iteration E fuel s =
     (case flush_assignment E s of
        Inl e \<Rightarrow> Some (Inl e)
      | Inr s1 \<Rightarrow>
          (case run_auction_phase E fuel s1 of
             None \<Rightarrow> None
           | Some (Inl e) \<Rightarrow> Some (Inl e)
           | Some (Inr s2) \<Rightarrow>
               (case getDistanceToQthPowerInternal E s2 of
                  Inl e \<Rightarrow> Some (Inl e)
                | Inr (current_result, s3) \<Rightarrow> Some (Inr (evaluate_phase E current_result s3)))))"

text \<open>
  The \<^verbatim>\<open>for\<close> loop, by the number of iterations left
  (\<^verbatim>\<open>max_num_phases - phase_num\<close>).  The flag tells how the loop was left:
  \<open>True\<close> by \<^verbatim>\<open>break\<close>, \<open>False\<close> by running out of phases.
\<close>

fun phase_loop ::
  "('o, 'p) env \<Rightarrow> nat \<Rightarrow> nat \<Rightarrow> ('o, 'p) runner \<Rightarrow> (error + (bool \<times> ('o, 'p) runner)) option" where
  "phase_loop E fuel 0 s = Some (Inr (False, s))"
| "phase_loop E fuel (Suc n) s =
     (case phase_iteration E fuel s of
        None \<Rightarrow> None
      | Some (Inl e) \<Rightarrow> Some (Inl e)
      | Some (Inr (brk, s1)) \<Rightarrow> if brk then Some (Inr (True, s1)) else phase_loop E fuel n s1)"

definition begin_phases :: "('o, 'p) env \<Rightarrow> ('o, 'p) runner \<Rightarrow> error + ('o, 'p) runner" where
  "begin_phases E s =
     (let s1 = s\<lparr>result := (result s)\<lparr>final_relative_error := Real_max\<rparr>\<rparr>;
          s2 = s1\<lparr>oracle_st := set_epsilon E (initial_epsilon (params s1)) (oracle_st s1)\<rparr>;
          s3 = s2\<lparr>result := (result s2)\<lparr>start_epsilon := get_epsilon E (oracle_st s2)\<rparr>\<rparr>;
          s4 = s3\<lparr>result := (result s3)\<lparr>final_epsilon := get_epsilon E (oracle_st s3)\<rparr>\<rparr>
      in if assert_fails E (get_epsilon E (oracle_st s4) > 0) then Inl AssertionFailed
         else Inr s4)"

definition run_auction_phases ::
  "('o, 'p) env \<Rightarrow> nat \<Rightarrow> ('o, 'p) runner \<Rightarrow> (error + ('o, 'p) runner) option" where
  "run_auction_phases E fuel s =
     (case begin_phases E s of
        Inl e \<Rightarrow> Some (Inl e)
      | Inr s1 \<Rightarrow>
          (case phase_loop E fuel (nat (max_num_phases (params s1))) s1 of
             None \<Rightarrow> None
           | Some (Inl e) \<Rightarrow> Some (Inl e)
           | Some (Inr (brk, s2)) \<Rightarrow>
               Some (Inr (s2\<lparr>result := (result s2)\<lparr>prices := get_prices E (oracle_st s2)\<rparr>\<rparr>))))"

section \<open>The run\<close>

text \<open>
  Modelled from the spec: the result's \<^verbatim>\<open>compute_distance\<close> and the matching
  list, and the runner's \<^verbatim>\<open>get_bidder_id\<close> and \<^verbatim>\<open>get_bidders_item_id\<close>, are
  declared outside the source file.  The distance is \<open>cost\<^sup>1\<^sup>/\<^sup>q\<close>; the matching
  lists, bidder by bidder, the caller-facing identifiers of the bidder and of the
  item it holds.
\<close>

definition compute_distance :: "('o, 'p) env \<Rightarrow> real \<Rightarrow> auction_result \<Rightarrow> auction_result" where
  "compute_distance E q r = r\<lparr>distance := std_pow E (cost r) (1 / q)\<rparr>"

definition get_bidder_id :: "('o, 'p) env \<Rightarrow> ('o, 'p) runner \<Rightarrow> nat \<Rightarrow> error + int" where
  "get_bidder_id E s bidder_idx =
     (if bidder_idx < length (bidders s) then Inr (get_id E (bidders s ! bidder_idx))
      else Inl UndefinedBehaviour)"

definition get_bidders_item_id :: "('o, 'p) env \<Rightarrow> ('o, 'p) runner \<Rightarrow> nat \<Rightarrow> error + int" where
  "get_bidders_item_id E s bidder_idx =
     (if \<not> bidder_idx < length (bidders_to_items s) then Inl UndefinedBehaviour
      else (case bidders_to_items s ! bidder_idx of
              None \<Rightarrow> Inl UndefinedBehaviour
            | Some i \<Rightarrow> if i < length (items s) then Inr (get_id E (items s ! i))
                        else Inl UndefinedBehaviour))"

fun add_matches ::
  "('o, 'p) env \<Rightarrow> ('o, 'p) runner \<Rightarrow> nat list \<Rightarrow> (int \<times> int) list \<Rightarrow> error + (int \<times> int) list" where
  "add_matches E s [] m = Inr m"
| "add_matches E s (bidder_idx # rest) m =
     (case get_bidder_id E s bidder_idx of
        Inl e \<Rightarrow> Inl e
      | Inr bidder_id \<Rightarrow>
          (case get_bidders_item_id E s bidder_idx of
             Inl e \<Rightarrow> Inl e
           | Inr item_id \<Rightarrow> add_matches E s rest (m @ [(bidder_id, item_id)])))"

definition finish_run :: "('o, 'p) env \<Rightarrow> ('o, 'p) runner \<Rightarrow> error + ('o, 'p) runner" where
  "finish_run E s =
     (let s1 = s\<lparr>result := compute_distance E (wasserstein_power (params s)) (result s)\<rparr>;
          s2 = s1\<lparr>is_distance_computed := True\<rparr>
      in if return_matching (params s2) then
           (case add_matches E s2 [0..<num_bidders s2] [] of
              Inl e \<Rightarrow> Inl e
            | Inr m \<Rightarrow> Inr (s2\<lparr>result := (result s2)\<lparr>matching := m\<rparr>\<rparr>))
         else Inr s2)"

text \<open>The part of \<^verbatim>\<open>run_auction\<close> before the distance is computed.\<close>

definition auction_core ::
  "('o, 'p) env \<Rightarrow> nat \<Rightarrow> ('o, 'p) runner \<Rightarrow> (error + ('o, 'p) runner) option" where
  "auction_core E fuel s =
     (if num_bidders s = 1 then
        (case assign_item_to_bidder E 0 0 s of
           Inl e \<Rightarrow> Some (Inl e)
         | Inr s1 \<Rightarrow>
             (case get_item_bidder_cost E s1 (Some 0) (Some 0) False of
                Inl e \<Rightarrow> Some (Inl e)
              | Inr c \<Rightarrow> Some (Inr (s1\<lparr>result := (result s1)\<lparr>cost := c\<rparr>\<rparr>))))
      else
        (case run_auction_phases E fuel s of
           None \<Rightarrow> None
         | Some (Inl e) \<Rightarrow> Some (Inl e)
         | Some (Inr s1) \<Rightarrow>
             if DEBUG_AUCTION E
                \<and> (final_relative_error (result s1) > delta (params s1)
                   \<and> \<not> tolerate_max_iter_exceeded (params s1))
                \<and> \<not> tolerate_max_iter_exceeded (params s1)
             then Some (Inl MaxIterExceeded)
             else Some (Inr s1)))"

definition run_auction ::
  "('o, 'p) env \<Rightarrow> nat \<Rightarrow> ('o, 'p) runner \<Rightarrow> (error + ('o, 'p) runner) option" where
  "run_auction E fuel s =
     (case auction_core E fuel s of
        None \<Rightarrow> None
      | Some (Inl e) \<Rightarrow> Some (Inl e)
      | Some (Inr s1) \<Rightarrow> Some (finish_run E s1))"

section \<open>Specification vocabulary\<close>

text \<open>
  Modelled from the spec: the oracle class is a template parameter.  It owns epsilon,
  which the orchestrator reads and sets and which stays fixed within a phase: what
  \<^verbatim>\<open>set_epsilon\<close> stores is what \<^verbatim>\<open>get_epsilon\<close> returns, and no other operation
  of the oracle changes it.
\<close>

definition oracle_keeps_epsilon :: "('o, 'p) env \<Rightarrow> bool" where
  "oracle_keeps_epsilon E =
     ((\<forall>e orc. get_epsilon E (set_epsilon E e orc) = e)
      \<and> (\<forall>orc. get_epsilon E (adjust_prices E orc) = get_epsilon E orc)
      \<and> (\<forall>i v orc. get_epsilon E (set_price E i v orc) = get_epsilon E orc)
      \<and> (\<forall>orc b. get_epsilon E (snd (get_optimal_bid E orc b)) = get_epsilon E orc))"

text \<open>\<^verbatim>\<open>*s.begin()\<close> of a non-empty set is one of its elements.\<close>

definition begin_in_set :: "('o, 'p) env \<Rightarrow> bool" where
  "begin_in_set E = (\<forall>S. finite S \<and> S \<noteq> {} \<longrightarrow> set_begin E S \<in> S)"

text \<open>The consistency of the ledger that \<^verbatim>\<open>sanity_check\<close> looks for.\<close>

definition ledger_inv :: "('o, 'p) runner \<Rightarrow> bool" where
  "ledger_inv s =
     (length (bidders_to_items s) = num_bidders s
      \<and> length (items_to_bidders s) = num_bidders s
      \<and> (\<forall>b < num_bidders s. \<forall>i. bidders_to_items s ! b = Some i \<longrightarrow>
            i < num_bidders s \<and> items_to_bidders s ! i = Some b)
      \<and> (\<forall>i < num_bidders s. \<forall>b. items_to_bidders s ! i = Some b \<longrightarrow>
            b < num_bidders s \<and> bidders_to_items s ! b = Some i)
      \<and> unassigned_bidders s = {b. b < num_bidders s \<and> bidders_to_items s ! b = k_invalid_index})"

definition perfect_matching :: "('o, 'p) runner \<Rightarrow> bool" where
  "perfect_matching s =
     (length (bidders_to_items s) = num_bidders s
      \<and> length (items_to_bidders s) = num_bidders s
      \<and> (\<forall>b < num_bidders s. \<exists>i < num_bidders s.
            bidders_to_items s ! b = Some i \<and> items_to_bidders s ! i = Some b)
      \<and> (\<forall>i < num_bidders s. count_list (bidders_to_items s) (Some i) = 1))"

text \<open>
  The cost of the current matching, recomputed independently of the runner's loop:
  the sum over all bidders of the distance to the assigned item, to the power \<open>q\<close>.
\<close>

definition matching_cost :: "('o, 'p) env \<Rightarrow> ('o, 'p) runner \<Rightarrow> real" where
  "matching_cost E s =
     (\<Sum>b < num_bidders s.
        std_pow E (dist_lp E (bidders s ! b) (items s ! the (bidders_to_items s ! b))
                     (internal_p (params s)) (dim (params s)))
                  (wasserstein_power (params s)))"

definition complete_matching :: "('o, 'p) runner \<Rightarrow> bool" where
  "complete_matching s =
     (num_bidders s \<le> length (bidders s)
      \<and> num_bidders s \<le> length (bidders_to_items s)
      \<and> (\<forall>b < num_bidders s. \<exists>i < length (items s). bidders_to_items s ! b = Some i))"

text \<open>What a phase leaves alone: the inputs, the parameters, the sizes of the ledger and
  the epsilons and the error bound recorded in the result.\<close>

definition phase_frame :: "('o, 'p) runner \<Rightarrow> ('o, 'p) runner \<Rightarrow> bool" where
  "phase_frame s s' =
     (bidders s' = bidders s \<and> items s' = items s
      \<and> num_bidders s' = num_bidders s \<and> num_items s' = num_items s
      \<and> params s' = params s
      \<and> length (bidders_to_items s') = length (bidders_to_items s)
      \<and> length (items_to_bidders s') = length (items_to_bidders s)
      \<and> is_distance_computed s' = is_distance_computed s
      \<and> start_epsilon (result s') = start_epsilon (result s)
      \<and> final_epsilon (result s') = final_epsilon (result s)
      \<and> final_relative_error (result s') = final_relative_error (result s))"

text \<open>
  The epsilons of the phases that the \<^verbatim>\<open>for\<close> loop starts, in order: each phase
  bids at the epsilon the oracle holds when the loop body begins.
\<close>

fun epsilon_sequence :: "('o, 'p) env \<Rightarrow> nat \<Rightarrow> nat \<Rightarrow> ('o, 'p) runner \<Rightarrow> real list" where
  "epsilon_sequence E fuel 0 s = []"
| "epsilon_sequence E fuel (Suc n) s =
     get_epsilon E (oracle_st s) #
       (case phase_iteration E fuel s of
          Some (Inr (False, s1)) \<Rightarrow> epsilon_sequence E fuel n s1
        | _ \<Rightarrow> [])"


section \<open>A concrete instance\<close>

text \<open>
  Points on the real line with the absolute difference as ground distance, an oracle
  whose only state is epsilon and which offers every bidder the item of its own
  index, and the least element as \<^verbatim>\<open>begin()\<close>.  The scalar division is the
  division of the reals; the runs evaluated below divide \<open>1\<close> by \<open>5\<close>, \<open>1\<close> or
  \<open>1/2\<close> once, where a \<^verbatim>\<open>double\<close> gives the nearest value (\<open>1\<close> and \<open>2\<close>
  exactly).
\<close>

definition demo_env :: "bool \<Rightarrow> bool \<Rightarrow> (real, real) env" where
  "demo_env dbg nd =
     \<lparr>new_oracle = (\<lambda>A B p. 0), set_prices = (\<lambda>ps orc. orc), get_prices = (\<lambda>orc. []),
      max_val = (\<lambda>orc. 4), set_epsilon = (\<lambda>e orc. e), get_epsilon = (\<lambda>orc. orc),
      adjust_prices = (\<lambda>orc. orc), get_optimal_bid = (\<lambda>orc b. ((b, 0), orc)),
      set_price = (\<lambda>i v orc. orc), dist_lp = (\<lambda>a b p d. \<bar>a - b\<bar>),
      std_pow = (\<lambda>x y. x powr y), scalar_div = (\<lambda>x y. x / y), get_id = (\<lambda>a. \<lfloor>a\<rfloor>),
      set_begin = Min, DEBUG_AUCTION = dbg, NDEBUG = nd\<rparr>"

definition demo_params :: auction_params where
  "demo_params =
     \<lparr>wasserstein_power = 1, internal_p = 2, dim = 1, delta = 1 / 100, initial_epsilon = 0,
      epsilon_common_ratio = 0, max_num_phases = 1, tolerate_max_iter_exceeded = False,
      return_matching = True\<rparr>"

definition demo_state ::
  "auction_params \<Rightarrow> idx list \<Rightarrow> idx list \<Rightarrow> nat set \<Rightarrow> real \<Rightarrow> auction_result \<Rightarrow> (real, real) runner" where
  "demo_state p i2b b2i un eps res =
     \<lparr>bidders = [0, 0], items = [3, 5], num_bidders = 2, num_items = 2,
      items_to_bidders = i2b, bidders_to_items = b2i, params = p, oracle_st = eps,
      unassigned_bidders = un, result = res, is_distance_computed = False\<rparr>"

definition demo_result :: "real \<Rightarrow> nat \<Rightarrow> nat \<Rightarrow> real \<Rightarrow> real \<Rightarrow> real \<Rightarrow> auction_result" where
  "demo_result c nr np se fe fre =
     \<lparr>cost = c, distance = 0, num_rounds = nr, num_phases = np, start_epsilon = se,
      final_epsilon = fe, final_relative_error = fre, prices = [], matching = []\<rparr>"

section \<open>Ledger lemmas\<close>

lemma check_bidder_result [simp]: "check_bidder E (s\<lparr>result := r\<rparr>) = check_bidder E s"
  by (rule ext) (simp add: check_bidder_def split: option.split)

lemma check_item_result [simp]: "check_item E (s\<lparr>result := r\<rparr>) = check_item E s"
  by (rule ext) (simp add: check_item_def split: option.split)

lemma sanity_check_result [simp]: "sanity_check E (s\<lparr>result := r\<rparr>) = sanity_check E s"
  by (simp add: sanity_check_def cong: sum.case_cong)

lemma ledger_step_free:
  fixes b2i i2b :: "nat option list"
  assumes len: "length b2i = N" "length i2b = N"
      and f: "\<forall>x<N. \<forall>j. b2i ! x = Some j \<longrightarrow> j < N \<and> i2b ! j = Some x"
      and g: "\<forall>j<N. \<forall>x. i2b ! j = Some x \<longrightarrow> x < N \<and> b2i ! x = Some j"
      and b: "b < N" "b2i ! b = None" and i: "i < N" "i2b ! i = None"
  shows "\<forall>x<N. \<forall>j. b2i[b := Some i] ! x = Some j \<longrightarrow> j < N \<and> i2b[i := Some b] ! j = Some x"
    and "\<forall>j<N. \<forall>x. i2b[i := Some b] ! j = Some x \<longrightarrow> x < N \<and> b2i[b := Some i] ! x = Some j"
    and "{x. x < N \<and> b2i[b := Some i] ! x = None} = {x. x < N \<and> b2i ! x = None} - {b}"
proof -
  show "\<forall>x<N. \<forall>j. b2i[b := Some i] ! x = Some j \<longrightarrow> j < N \<and> i2b[i := Some b] ! j = Some x"
  proof (intro allI impI)
    fix x j assume x: "x < N" and e: "b2i[b := Some i] ! x = Some j"
    show "j < N \<and> i2b[i := Some b] ! j = Some x"
    proof (cases "x = b")
      case True
      with e b len i show ?thesis by simp
    next
      case False
      with e have "b2i ! x = Some j" by simp
      with f x have j: "j < N" "i2b ! j = Some x" by auto
      with i have "j \<noteq> i" by auto
      with j show ?thesis by simp
    qed
  qed
  show "\<forall>j<N. \<forall>x. i2b[i := Some b] ! j = Some x \<longrightarrow> x < N \<and> b2i[b := Some i] ! x = Some j"
  proof (intro allI impI)
    fix j x assume j: "j < N" and e: "i2b[i := Some b] ! j = Some x"
    show "x < N \<and> b2i[b := Some i] ! x = Some j"
    proof (cases "j = i")
      case True
      with e b len i show ?thesis by simp
    next
      case False
      with e have "i2b ! j = Some x" by simp
      with g j have x: "x < N" "b2i ! x = Some j" by auto
      with b have "x \<noteq> b" by auto
      with x show ?thesis by simp
    qed
  qed
  show "{x. x < N \<and> b2i[b := Some i] ! x = None} = {x. x < N \<and> b2i ! x = None} - {b}"
    using len b by (auto simp: nth_list_update)
qed

lemma ledger_step_taken:
  fixes b2i i2b :: "nat option list"
  assumes len: "length b2i = N" "length i2b = N"
      and f: "\<forall>x<N. \<forall>j. b2i ! x = Some j \<longrightarrow> j < N \<and> i2b ! j = Some x"
      and g: "\<forall>j<N. \<forall>x. i2b ! j = Some x \<longrightarrow> x < N \<and> b2i ! x = Some j"
      and b: "b < N" "b2i ! b = None" and i: "i < N" "i2b ! i = Some old"
  shows "\<forall>x<N. \<forall>j. b2i[b := Some i, old := None] ! x = Some j \<longrightarrow> j < N \<and> i2b[i := Some b] ! j = Some x"
    and "\<forall>j<N. \<forall>x. i2b[i := Some b] ! j = Some x \<longrightarrow> x < N \<and> b2i[b := Some i, old := None] ! x = Some j"
    and "{x. x < N \<and> b2i[b := Some i, old := None] ! x = None}
           = insert old ({x. x < N \<and> b2i ! x = None} - {b})"
proof -
  from g i have old: "old < N" "b2i ! old = Some i" by auto
  with b have ne: "old \<noteq> b" by auto
  show "\<forall>x<N. \<forall>j. b2i[b := Some i, old := None] ! x = Some j \<longrightarrow> j < N \<and> i2b[i := Some b] ! j = Some x"
  proof (intro allI impI)
    fix x j assume x: "x < N" and e: "b2i[b := Some i, old := None] ! x = Some j"
    from e x len have xo: "x \<noteq> old" by (auto simp: nth_list_update)
    show "j < N \<and> i2b[i := Some b] ! j = Some x"
    proof (cases "x = b")
      case True
      with e b len i ne show ?thesis by simp
    next
      case False
      with e xo have "b2i ! x = Some j" by simp
      with f x have j: "j < N" "i2b ! j = Some x" by auto
      with i xo have "j \<noteq> i" by auto
      with j show ?thesis by simp
    qed
  qed
  show "\<forall>j<N. \<forall>x. i2b[i := Some b] ! j = Some x \<longrightarrow> x < N \<and> b2i[b := Some i, old := None] ! x = Some j"
  proof (intro allI impI)
    fix j x assume j: "j < N" and e: "i2b[i := Some b] ! j = Some x"
    show "x < N \<and> b2i[b := Some i, old := None] ! x = Some j"
    proof (cases "j = i")
      case True
      with e b len i ne show ?thesis by simp
    next
      case False
      with e have "i2b ! j = Some x" by simp
      with g j have x: "x < N" "b2i ! x = Some j" by auto
      with b have xb: "x \<noteq> b" by auto
      from x old False have "x \<noteq> old" by auto
      with x xb show ?thesis by simp
    qed
  qed
  show "{x. x < N \<and> b2i[b := Some i, old := None] ! x = None}
           = insert old ({x. x < N \<and> b2i ! x = None} - {b})"
    using len b old ne by (auto simp: nth_list_update)
qed


lemma assign_fields:
  assumes "assign_item_to_bidder E item_idx bidder_idx s = Inr s'"
  shows "item_idx < length (items_to_bidders s) \<and> bidder_idx < length (bidders_to_items s)
     \<and> items_to_bidders s' = (items_to_bidders s)[item_idx := Some bidder_idx]
     \<and> (case items_to_bidders s ! item_idx of
           None \<Rightarrow> bidders_to_items s' = (bidders_to_items s)[bidder_idx := Some item_idx]
                  \<and> unassigned_bidders s' = unassigned_bidders s - {bidder_idx}
         | Some old \<Rightarrow> old < length (bidders_to_items s)
                  \<and> bidders_to_items s' = (bidders_to_items s)[bidder_idx := Some item_idx, old := None]
                  \<and> unassigned_bidders s' = insert old (unassigned_bidders s - {bidder_idx}))"
  using assms
  by (auto simp: assign_item_to_bidder_def Let_def split: sum.splits if_splits option.splits)

lemma assign_frame:
  assumes "assign_item_to_bidder E item_idx bidder_idx s = Inr s'"
  shows "bidders s' = bidders s \<and> items s' = items s \<and> num_bidders s' = num_bidders s
     \<and> num_items s' = num_items s \<and> params s' = params s \<and> oracle_st s' = oracle_st s
     \<and> is_distance_computed s' = is_distance_computed s
     \<and> result s' = (result s)\<lparr>num_rounds := num_rounds (result s) + 1\<rparr>"
  using assms
  by (auto simp: assign_item_to_bidder_def Let_def split: sum.splits if_splits option.splits)

lemma ledger_invI:
  assumes "length (bidders_to_items s) = num_bidders s"
      and "length (items_to_bidders s) = num_bidders s"
      and "\<forall>b < num_bidders s. \<forall>i. bidders_to_items s ! b = Some i \<longrightarrow>
            i < num_bidders s \<and> items_to_bidders s ! i = Some b"
      and "\<forall>i < num_bidders s. \<forall>b. items_to_bidders s ! i = Some b \<longrightarrow>
            b < num_bidders s \<and> bidders_to_items s ! b = Some i"
      and "unassigned_bidders s = {b. b < num_bidders s \<and> bidders_to_items s ! b = None}"
  shows "ledger_inv s"
  unfolding ledger_inv_def using assms by blast

lemma ledger_invD:
  assumes "ledger_inv s"
  shows "length (bidders_to_items s) = num_bidders s"
    and "length (items_to_bidders s) = num_bidders s"
    and "\<forall>b < num_bidders s. \<forall>i. bidders_to_items s ! b = Some i \<longrightarrow>
            i < num_bidders s \<and> items_to_bidders s ! i = Some b"
    and "\<forall>i < num_bidders s. \<forall>b. items_to_bidders s ! i = Some b \<longrightarrow>
            b < num_bidders s \<and> bidders_to_items s ! b = Some i"
    and "unassigned_bidders s = {b. b < num_bidders s \<and> bidders_to_items s ! b = None}"
  using assms unfolding ledger_inv_def by blast+

lemma assign_keeps_ledger_inv:
  assumes inv: "ledger_inv s"
      and un: "bidder_idx \<in> unassigned_bidders s"
      and ok: "assign_item_to_bidder E item_idx bidder_idx s = Inr s'"
  shows "ledger_inv s'"
proof -
  let ?N = "num_bidders s"
  note fl = assign_fields [OF ok]
  from assign_frame [OF ok] have nb: "num_bidders s' = ?N" by simp
  note len = ledger_invD(1,2) [OF inv] and f = ledger_invD(3) [OF inv]
    and g = ledger_invD(4) [OF inv] and u = ledger_invD(5) [OF inv]
  from un u have b: "bidder_idx < ?N" "bidders_to_items s ! bidder_idx = None" by auto
  from fl len have i: "item_idx < ?N" by simp
  show ?thesis
  proof (cases "items_to_bidders s ! item_idx")
    case None
    with fl have e: "items_to_bidders s' = (items_to_bidders s)[item_idx := Some bidder_idx]"
        "bidders_to_items s' = (bidders_to_items s)[bidder_idx := Some item_idx]"
        "unassigned_bidders s' = unassigned_bidders s - {bidder_idx}"
      by simp_all
    note st = ledger_step_free [OF len f g b i None]
    show ?thesis
    proof (rule ledger_invI)
      show "length (bidders_to_items s') = num_bidders s'" unfolding e nb using len by simp
      show "length (items_to_bidders s') = num_bidders s'" unfolding e nb using len by simp
      show "\<forall>b < num_bidders s'. \<forall>i. bidders_to_items s' ! b = Some i \<longrightarrow>
            i < num_bidders s' \<and> items_to_bidders s' ! i = Some b"
        unfolding e nb by (rule st(1))
      show "\<forall>i < num_bidders s'. \<forall>b. items_to_bidders s' ! i = Some b \<longrightarrow>
            b < num_bidders s' \<and> bidders_to_items s' ! b = Some i"
        unfolding e nb by (rule st(2))
      show "unassigned_bidders s' = {b. b < num_bidders s' \<and> bidders_to_items s' ! b = None}"
        unfolding e nb u by (rule st(3) [symmetric])
    qed
  next
    case (Some old)
    with fl have e: "items_to_bidders s' = (items_to_bidders s)[item_idx := Some bidder_idx]"
        "bidders_to_items s' = (bidders_to_items s)[bidder_idx := Some item_idx, old := None]"
        "unassigned_bidders s' = insert old (unassigned_bidders s - {bidder_idx})"
      by simp_all
    note st = ledger_step_taken [OF len f g b i Some]
    show ?thesis
    proof (rule ledger_invI)
      show "length (bidders_to_items s') = num_bidders s'" unfolding e nb using len by simp
      show "length (items_to_bidders s') = num_bidders s'" unfolding e nb using len by simp
      show "\<forall>b < num_bidders s'. \<forall>i. bidders_to_items s' ! b = Some i \<longrightarrow>
            i < num_bidders s' \<and> items_to_bidders s' ! i = Some b"
        unfolding e nb by (rule st(1))
      show "\<forall>i < num_bidders s'. \<forall>b. items_to_bidders s' ! i = Some b \<longrightarrow>
            b < num_bidders s' \<and> bidders_to_items s' ! b = Some i"
        unfolding e nb by (rule st(2))
      show "unassigned_bidders s' = {b. b < num_bidders s' \<and> bidders_to_items s' ! b = None}"
        unfolding e nb u by (rule st(3) [symmetric])
    qed
  qed
qed

lemma ledger_inv_oracle [simp]: "ledger_inv (s\<lparr>oracle_st := x\<rparr>) = ledger_inv s"
  by (simp add: ledger_inv_def)

lemma ledger_inv_result [simp]: "ledger_inv (s\<lparr>result := x\<rparr>) = ledger_inv s"
  by (simp add: ledger_inv_def)

lemma ledger_inv_finite: "ledger_inv s \<Longrightarrow> finite (unassigned_bidders s)"
  using ledger_invD(5) [of s] by simp

lemma bidding_round_keeps_ledger_inv:
  assumes "begin_in_set E" "ledger_inv s" "bidding_round E s = Inr s'"
  shows "ledger_inv s'"
proof -
  from assms(3) have ne: "unassigned_bidders s \<noteq> {}"
    by (auto simp: bidding_round_def split: if_splits)
  with assms(1,2) have m: "set_begin E (unassigned_bidders s) \<in> unassigned_bidders s"
    by (simp add: begin_in_set_def ledger_inv_finite)
  from assms(3) ne obtain s1 where
    a: "assign_item_to_bidder E (fst (fst (get_optimal_bid E (oracle_st s) (set_begin E (unassigned_bidders s)))))
          (set_begin E (unassigned_bidders s))
          (s\<lparr>oracle_st := snd (get_optimal_bid E (oracle_st s) (set_begin E (unassigned_bidders s)))\<rparr>) = Inr s1"
    and s': "s' = s1\<lparr>oracle_st := set_price E (fst (fst (get_optimal_bid E (oracle_st s) (set_begin E (unassigned_bidders s)))))
          (snd (fst (get_optimal_bid E (oracle_st s) (set_begin E (unassigned_bidders s))))) (oracle_st s1)\<rparr>"
    by (auto simp: bidding_round_def Let_def split: sum.splits)
  have "ledger_inv s1"
    by (rule assign_keeps_ledger_inv [OF _ _ a]) (use assms(2) m in simp_all)
  then show ?thesis by (simp add: s')
qed

lemma bidding_loop_ledger_inv:
  assumes "begin_in_set E"
  shows "ledger_inv s \<Longrightarrow> bidding_loop E fuel s = Some (Inr s') \<Longrightarrow>
         ledger_inv s' \<and> unassigned_bidders s' = {}"
proof (induction fuel arbitrary: s)
  case 0
  then show ?case by simp
next
  case (Suc fuel)
  from Suc.prems(2) obtain s1 where r: "bidding_round E s = Inr s1"
    by (auto split: sum.splits)
  have i1: "ledger_inv s1"
    by (rule bidding_round_keeps_ledger_inv [OF assms Suc.prems(1) r])
  show ?case
  proof (cases "unassigned_bidders s1 = {}")
    case True
    with Suc.prems(2) r i1 show ?thesis by simp
  next
    case False
    with Suc.prems(2) r have "bidding_loop E fuel s1 = Some (Inr s')" by simp
    with Suc.IH i1 show ?thesis by blast
  qed
qed

lemma flush_fields:
  assumes "flush_assignment E s = Inr s1"
  shows "bidders_to_items s1 = map (\<lambda>_. None) (bidders_to_items s)
     \<and> items_to_bidders s1 = map (\<lambda>_. None) (items_to_bidders s)
     \<and> unassigned_bidders s1 = unassigned_bidders s \<union> {0..<num_bidders s}
     \<and> oracle_st s1 = adjust_prices E (oracle_st s)
     \<and> bidders s1 = bidders s \<and> items s1 = items s \<and> num_bidders s1 = num_bidders s
     \<and> num_items s1 = num_items s \<and> params s1 = params s \<and> result s1 = result s
     \<and> is_distance_computed s1 = is_distance_computed s"
  using assms by (auto simp: flush_assignment_def Let_def split: if_splits)

lemma flush_gives_ledger_inv:
  assumes l1: "length (bidders_to_items s) = num_bidders s"
      and l2: "length (items_to_bidders s) = num_bidders s"
      and un: "unassigned_bidders s \<subseteq> {..<num_bidders s}"
      and fl: "flush_assignment E s = Inr s1"
  shows "ledger_inv s1"
proof (rule ledger_invI)
  note ff = flush_fields [OF fl]
  show "length (bidders_to_items s1) = num_bidders s1" using ff l1 by simp
  show "length (items_to_bidders s1) = num_bidders s1" using ff l2 by simp
  show "\<forall>b < num_bidders s1. \<forall>i. bidders_to_items s1 ! b = Some i \<longrightarrow>
            i < num_bidders s1 \<and> items_to_bidders s1 ! i = Some b"
    using ff l1 by simp
  show "\<forall>i < num_bidders s1. \<forall>b. items_to_bidders s1 ! i = Some b \<longrightarrow>
            b < num_bidders s1 \<and> bidders_to_items s1 ! b = Some i"
    using ff l2 by simp
  show "unassigned_bidders s1 = {b. b < num_bidders s1 \<and> bidders_to_items s1 ! b = None}"
    using ff l1 un by auto
qed

lemma complete_ledger_assigned:
  assumes inv: "ledger_inv s" and e: "unassigned_bidders s = {}" and b: "b < num_bidders s"
  shows "\<exists>i < num_bidders s. bidders_to_items s ! b = Some i \<and> items_to_bidders s ! i = Some b"
proof -
  have "bidders_to_items s ! b \<noteq> None"
  proof
    assume "bidders_to_items s ! b = None"
    with b have "b \<in> {b. b < num_bidders s \<and> bidders_to_items s ! b = None}" by simp
    then have "b \<in> unassigned_bidders s" by (simp only: ledger_invD(5) [OF inv])
    with e show False by simp
  qed
  then obtain i where i: "bidders_to_items s ! b = Some i"
    by (cases "bidders_to_items s ! b") simp_all
  note ledger_invD(3) [OF inv, rule_format, OF b i]
  with i show ?thesis by blast
qed

lemma complete_ledger_distinct:
  assumes inv: "ledger_inv s" and e: "unassigned_bidders s = {}"
  shows "distinct (bidders_to_items s)"
proof (rule distinct_conv_nth [THEN iffD2], intro allI impI)
  fix b b'
  assume b: "b < length (bidders_to_items s)" and b': "b' < length (bidders_to_items s)"
    and ne: "b \<noteq> b'"
  from b b' ledger_invD(1) [OF inv] have lt: "b < num_bidders s" "b' < num_bidders s" by simp_all
  from complete_ledger_assigned [OF inv e lt(1)] obtain i where
    i: "bidders_to_items s ! b = Some i" "items_to_bidders s ! i = Some b" by blast
  from complete_ledger_assigned [OF inv e lt(2)] obtain i' where
    i': "bidders_to_items s ! b' = Some i'" "items_to_bidders s ! i' = Some b'" by blast
  show "bidders_to_items s ! b \<noteq> bidders_to_items s ! b'"
  proof
    assume "bidders_to_items s ! b = bidders_to_items s ! b'"
    with i(1) i'(1) have "i = i'" by simp
    with i(2) i'(2) ne show False by simp
  qed
qed

lemma complete_ledger_values:
  assumes inv: "ledger_inv s" and e: "unassigned_bidders s = {}"
  shows "set (bidders_to_items s) = Some ` {..<num_bidders s}"
proof -
  let ?N = "num_bidders s" and ?b2i = "bidders_to_items s"
  have sub: "set ?b2i \<subseteq> Some ` {..<?N}"
  proof
    fix x assume "x \<in> set ?b2i"
    then obtain b where b: "b < length ?b2i" "?b2i ! b = x" by (auto simp: in_set_conv_nth)
    with ledger_invD(1) [OF inv] have "b < ?N" by simp
    from complete_ledger_assigned [OF inv e this] b(2) show "x \<in> Some ` {..<?N}" by auto
  qed
  have "card (set ?b2i) = ?N"
    using complete_ledger_distinct [OF inv e] ledger_invD(1) [OF inv] by (simp add: distinct_card)
  moreover have "card (Some ` {..<?N}) = ?N" by (simp add: card_image)
  moreover have "finite (Some ` {..<?N})" by simp
  ultimately show ?thesis using sub by (metis card_subset_eq)
qed

lemma count_list_distinct: "distinct xs \<Longrightarrow> x \<in> set xs \<Longrightarrow> count_list xs x = 1"
  by (induction xs) auto

lemma complete_ledger_is_perfect:
  assumes inv: "ledger_inv s" and e: "unassigned_bidders s = {}"
  shows "perfect_matching s"
proof -
  have "count_list (bidders_to_items s) (Some i) = 1" if "i < num_bidders s" for i
  proof -
    from that complete_ledger_values [OF inv e] have "Some i \<in> set (bidders_to_items s)" by simp
    with complete_ledger_distinct [OF inv e] show ?thesis by (simp add: count_list_distinct)
  qed
  moreover have "\<forall>b < num_bidders s. \<exists>i < num_bidders s.
      bidders_to_items s ! b = Some i \<and> items_to_bidders s ! i = Some b"
    using complete_ledger_assigned [OF inv e] by blast
  ultimately show ?thesis
    unfolding perfect_matching_def using ledger_invD(1,2) [OF inv] by blast
qed

section \<open>The freshly constructed runner\<close>

lemma constructor_state:
  assumes "AuctionRunnerGS E A B p prices0 = Inr s"
  shows "bidders s = A \<and> items s = B \<and> num_bidders s = length A \<and> num_items s = length B
     \<and> items_to_bidders s = replicate (length B) None
     \<and> bidders_to_items s = replicate (length A) None
     \<and> unassigned_bidders s = {} \<and> result s = empty_result
     \<and> wasserstein_power (params s) = wasserstein_power p
     \<and> internal_p (params s) = internal_p p \<and> dim (params s) = dim p
     \<and> delta (params s) = delta p \<and> max_num_phases (params s) = max_num_phases p
     \<and> tolerate_max_iter_exceeded (params s) = tolerate_max_iter_exceeded p
     \<and> return_matching (params s) = return_matching p"
  using assms
  by (auto simp: AuctionRunnerGS_def Let_def split: if_splits)

lemma sanity_check_single_fresh:
  assumes "num_bidders s = 1" "bidders_to_items s = [None]" "items_to_bidders s = [None]"
  shows "sanity_check E s = Inr ()"
  using assms by (simp add: sanity_check_def check_bidder_def check_item_def)

section \<open>What the operations leave unchanged\<close>

lemma phase_frame_refl [simp]: "phase_frame s s"
  by (simp add: phase_frame_def)

lemma phase_frame_trans: "phase_frame s s1 \<Longrightarrow> phase_frame s1 s2 \<Longrightarrow> phase_frame s s2"
  by (simp add: phase_frame_def)

lemma phase_frame_counters [simp]:
  "phase_frame s (s'\<lparr>result := (result s')\<lparr>num_phases := n\<rparr>\<rparr>) = phase_frame s s'"
  "phase_frame (s\<lparr>result := (result s)\<lparr>num_phases := n\<rparr>\<rparr>) s' = phase_frame s s'"
  "phase_frame s (s'\<lparr>oracle_st := x\<rparr>) = phase_frame s s'"
  "phase_frame (s\<lparr>oracle_st := x\<rparr>) s' = phase_frame s s'"
  by (simp_all add: phase_frame_def)

lemma assign_phase_frame:
  assumes "assign_item_to_bidder E item_idx bidder_idx s = Inr s'"
  shows "phase_frame s s'"
  using assign_frame [OF assms] assign_fields [OF assms]
  by (auto simp: phase_frame_def split: option.splits)

lemma bidding_round_frame:
  assumes "bidding_round E s = Inr s'"
  shows "phase_frame s s'"
  using assms
  by (auto simp: bidding_round_def Let_def split: if_splits sum.splits dest!: assign_phase_frame)

lemma bidding_round_epsilon:
  assumes "oracle_keeps_epsilon E" "bidding_round E s = Inr s'"
  shows "get_epsilon E (oracle_st s') = get_epsilon E (oracle_st s)"
  using assms
  by (auto simp: bidding_round_def Let_def oracle_keeps_epsilon_def
      split: if_splits sum.splits dest!: assign_frame)

lemma bidding_loop_frame:
  "bidding_loop E fuel s = Some (Inr s') \<Longrightarrow> phase_frame s s'"
proof (induction fuel arbitrary: s)
  case 0
  then show ?case by simp
next
  case (Suc fuel)
  from Suc.prems obtain s1 where r: "bidding_round E s = Inr s1"
    by (auto split: sum.splits)
  note f1 = bidding_round_frame [OF r]
  show ?case
  proof (cases "unassigned_bidders s1 = {}")
    case True
    with Suc.prems r f1 show ?thesis by simp
  next
    case False
    with Suc.prems r have "bidding_loop E fuel s1 = Some (Inr s')" by simp
    from Suc.IH [OF this] f1 show ?thesis by (rule phase_frame_trans [rotated])
  qed
qed

lemma bidding_loop_epsilon:
  assumes "oracle_keeps_epsilon E"
  shows "bidding_loop E fuel s = Some (Inr s') \<Longrightarrow>
         get_epsilon E (oracle_st s') = get_epsilon E (oracle_st s)"
proof (induction fuel arbitrary: s)
  case 0
  then show ?case by simp
next
  case (Suc fuel)
  from Suc.prems obtain s1 where r: "bidding_round E s = Inr s1"
    by (auto split: sum.splits)
  note e1 = bidding_round_epsilon [OF assms r]
  show ?case
  proof (cases "unassigned_bidders s1 = {}")
    case True
    with Suc.prems r e1 show ?thesis by simp
  next
    case False
    with Suc.prems r have "bidding_loop E fuel s1 = Some (Inr s')" by simp
    from Suc.IH [OF this] e1 show ?thesis by simp
  qed
qed

lemma run_auction_phase_loop:
  assumes "run_auction_phase E fuel s = Some (Inr s')"
  shows "bidding_loop E fuel (s\<lparr>result := (result s)\<lparr>num_phases := num_phases (result s) + 1\<rparr>\<rparr>)
           = Some (Inr s')"
  using assms
  by (auto simp: run_auction_phase_def split: option.splits sum.splits if_splits)

lemma run_auction_phase_frame:
  assumes "run_auction_phase E fuel s = Some (Inr s')"
  shows "phase_frame s s'"
  using bidding_loop_frame [OF run_auction_phase_loop [OF assms]] by simp

lemma run_auction_phase_epsilon:
  assumes "oracle_keeps_epsilon E" "run_auction_phase E fuel s = Some (Inr s')"
  shows "get_epsilon E (oracle_st s') = get_epsilon E (oracle_st s)"
  using bidding_loop_epsilon [OF assms(1) run_auction_phase_loop [OF assms(2)]] by simp

lemma flush_frame:
  assumes "flush_assignment E s = Inr s'"
  shows "phase_frame s s'"
  using flush_fields [OF assms] by (simp add: phase_frame_def)

lemma flush_epsilon:
  assumes "oracle_keeps_epsilon E" "flush_assignment E s = Inr s'"
  shows "get_epsilon E (oracle_st s') = get_epsilon E (oracle_st s)"
  using flush_fields [OF assms(2)] assms(1) by (simp add: oracle_keeps_epsilon_def)

section \<open>Cost and convergence test of one loop body\<close>

lemma sum_costs_result:
  "sum_costs E s bs r = Inr r' \<Longrightarrow>
     r' = r + (\<Sum>b\<leftarrow>bs. std_pow E (dist_lp E (bidders s ! b) (items s ! the (bidders_to_items s ! b))
                                   (internal_p (params s)) (dim (params s)))
                              (wasserstein_power (params s)))
     \<and> (\<forall>b \<in> set bs. b < length (bidders s) \<and> b < length (bidders_to_items s)
            \<and> (\<exists>i < length (items s). bidders_to_items s ! b = Some i))"
proof (induction bs arbitrary: r)
  case Nil
  then show ?case by simp
next
  case (Cons b bs)
  from Cons.prems obtain c where
    b: "b < length (bidders_to_items s)"
    and c: "get_item_bidder_cost E s (bidders_to_items s ! b) (Some b) False = Inr c"
    and rest: "sum_costs E s bs (r + c) = Inr r'"
    by (auto split: if_splits sum.splits)
  from c obtain i where i: "bidders_to_items s ! b = Some i" "i < length (items s)"
    "b < length (bidders s)"
    and cv: "c = std_pow E (dist_lp E (bidders s ! b) (items s ! i)
                 (internal_p (params s)) (dim (params s))) (wasserstein_power (params s))"
    by (auto simp: get_item_bidder_cost_def split: if_splits)
  from Cons.IH [OF rest] b i cv show ?case by simp
qed

lemma getDistance_result:
  assumes "getDistanceToQthPowerInternal E s = Inr (C, s')"
  shows "s' = s\<lparr>result := (result s)\<lparr>cost := C\<rparr>\<rparr> \<and> C = matching_cost E s \<and> complete_matching s"
proof -
  from assms have sc: "sum_costs E s [0..<num_bidders s] 0 = Inr C"
    and s': "s' = s\<lparr>result := (result s)\<lparr>cost := C\<rparr>\<rparr>"
    by (auto simp: getDistanceToQthPowerInternal_def split: sum.splits)
  note r = sum_costs_result [OF sc]
  from r have "C = matching_cost E s"
    by (simp add: matching_cost_def interv_sum_list_conv_sum_set_nat atLeast0LessThan)
  moreover have "complete_matching s"
  proof -
    from r have all: "\<forall>b < num_bidders s. b < length (bidders s) \<and> b < length (bidders_to_items s)
            \<and> (\<exists>i < length (items s). bidders_to_items s ! b = Some i)"
      by simp
    have "num_bidders s \<le> length (bidders s)"
    proof (rule ccontr)
      assume "\<not> num_bidders s \<le> length (bidders s)"
      then have "length (bidders s) < num_bidders s" by simp
      with all have "length (bidders s) < length (bidders s)" by blast
      then show False by simp
    qed
    moreover have "num_bidders s \<le> length (bidders_to_items s)"
    proof (rule ccontr)
      assume "\<not> num_bidders s \<le> length (bidders_to_items s)"
      then have "length (bidders_to_items s) < num_bidders s" by simp
      with all have "length (bidders_to_items s) < length (bidders_to_items s)" by blast
      then show False by simp
    qed
    ultimately show ?thesis using all unfolding complete_matching_def by blast
  qed
  ultimately show ?thesis using s' by simp
qed

lemma matching_cost_result [simp]: "matching_cost E (s\<lparr>result := r\<rparr>) = matching_cost E s"
  by (simp add: matching_cost_def)

lemma matching_cost_oracle [simp]: "matching_cost E (s\<lparr>oracle_st := r\<rparr>) = matching_cost E s"
  by (simp add: matching_cost_def)

lemma complete_matching_result [simp]: "complete_matching (s\<lparr>result := r\<rparr>) = complete_matching s"
  by (simp add: complete_matching_def)

lemma complete_matching_oracle [simp]: "complete_matching (s\<lparr>oracle_st := r\<rparr>) = complete_matching s"
  by (simp add: complete_matching_def)

text \<open>The relative error bound of the loop body, as a formula.\<close>

lemma evaluate_phase_result:
  assumes "evaluate_phase E C s = (brk, s')"
  shows "bidders_to_items s' = bidders_to_items s \<and> items_to_bidders s' = items_to_bidders s
     \<and> unassigned_bidders s' = unassigned_bidders s
     \<and> bidders s' = bidders s \<and> items s' = items s \<and> num_bidders s' = num_bidders s
     \<and> num_items s' = num_items s \<and> params s' = params s
     \<and> is_distance_computed s' = is_distance_computed s
     \<and> cost (result s') = cost (result s) \<and> num_phases (result s') = num_phases (result s)
     \<and> num_rounds (result s') = num_rounds (result s)
     \<and> start_epsilon (result s') = start_epsilon (result s)
     \<and> matching_cost E s' = matching_cost E s \<and> complete_matching s' = complete_matching s"
  using assms
  by (auto simp: evaluate_phase_def decrease_epsilon_def Let_def matching_cost_def
        complete_matching_def split: if_splits)

lemma evaluate_phase_verdict:
  assumes "evaluate_phase E C s = (brk, s')"
  shows "(brk \<longleftrightarrow> 0 < C - real (num_bidders s) * get_epsilon E (oracle_st s)
            \<and> (std_pow E C (1 / wasserstein_power (params s))
                 - std_pow E (C - real (num_bidders s) * get_epsilon E (oracle_st s))
                     (1 / wasserstein_power (params s)))
               / std_pow E (C - real (num_bidders s) * get_epsilon E (oracle_st s))
                     (1 / wasserstein_power (params s)) \<le> delta (params s))
     \<and> final_relative_error (result s')
         = (if 0 < C - real (num_bidders s) * get_epsilon E (oracle_st s)
            then (std_pow E C (1 / wasserstein_power (params s))
                 - std_pow E (C - real (num_bidders s) * get_epsilon E (oracle_st s))
                     (1 / wasserstein_power (params s)))
               / std_pow E (C - real (num_bidders s) * get_epsilon E (oracle_st s))
                     (1 / wasserstein_power (params s))
            else final_relative_error (result s))
     \<and> (brk \<longrightarrow> oracle_st s' = oracle_st s \<and> final_epsilon (result s') = final_epsilon (result s))
     \<and> (\<not> brk \<longrightarrow>
          oracle_st s' = set_epsilon E (scalar_div E (get_epsilon E (oracle_st s))
                                          (epsilon_common_ratio (params s)))
                           (oracle_st s)
          \<and> final_epsilon (result s') = get_epsilon E (oracle_st s'))"
  using assms
  by (auto simp: evaluate_phase_def decrease_epsilon_def Let_def split: if_splits)

lemma phase_iteration_parts:
  assumes "phase_iteration E fuel s = Some (Inr (brk, s'))"
  obtains s1 s2 C where "flush_assignment E s = Inr s1"
    and "run_auction_phase E fuel s1 = Some (Inr s2)"
    and "getDistanceToQthPowerInternal E s2 = Inr (C, s2\<lparr>result := (result s2)\<lparr>cost := C\<rparr>\<rparr>)"
    and "evaluate_phase E C (s2\<lparr>result := (result s2)\<lparr>cost := C\<rparr>\<rparr>) = (brk, s')"
proof -
  from assms obtain s1 s2 C s3 where 1: "flush_assignment E s = Inr s1"
    and 2: "run_auction_phase E fuel s1 = Some (Inr s2)"
    and 3: "getDistanceToQthPowerInternal E s2 = Inr (C, s3)"
    and 4: "evaluate_phase E C s3 = (brk, s')"
    by (auto simp: phase_iteration_def split: sum.splits option.splits prod.splits)
  from getDistance_result [OF 3] have "s3 = s2\<lparr>result := (result s2)\<lparr>cost := C\<rparr>\<rparr>" by simp
  with 1 2 3 4 that show thesis by blast
qed

text \<open>A summary of one completed loop body in terms of its start state.\<close>

lemma phase_iteration_summary:
  assumes it: "phase_iteration E fuel s = Some (Inr (brk, s'))"
  shows "bidders s' = bidders s \<and> items s' = items s \<and> num_bidders s' = num_bidders s
     \<and> num_items s' = num_items s \<and> params s' = params s
     \<and> length (bidders_to_items s') = length (bidders_to_items s)
     \<and> length (items_to_bidders s') = length (items_to_bidders s)
     \<and> is_distance_computed s' = is_distance_computed s
     \<and> start_epsilon (result s') = start_epsilon (result s)
     \<and> cost (result s') = matching_cost E s' \<and> complete_matching s'"
proof -
  from it obtain s1 s2 C where 1: "flush_assignment E s = Inr s1"
    and 2: "run_auction_phase E fuel s1 = Some (Inr s2)"
    and 3: "getDistanceToQthPowerInternal E s2 = Inr (C, s2\<lparr>result := (result s2)\<lparr>cost := C\<rparr>\<rparr>)"
    and 4: "evaluate_phase E C (s2\<lparr>result := (result s2)\<lparr>cost := C\<rparr>\<rparr>) = (brk, s')"
    by (rule phase_iteration_parts)
  have f: "phase_frame s s2"
    by (rule phase_frame_trans [OF flush_frame [OF 1] run_auction_phase_frame [OF 2]])
  from getDistance_result [OF 3] have c: "C = matching_cost E s2" "complete_matching s2" by simp_all
  from evaluate_phase_result [OF 4] f c show ?thesis
    by (simp add: phase_frame_def)
qed

lemma phase_iteration_verdict:
  assumes k: "oracle_keeps_epsilon E"
      and it: "phase_iteration E fuel s = Some (Inr (brk, s'))"
  shows "(brk \<longleftrightarrow> 0 < cost (result s') - real (num_bidders s) * get_epsilon E (oracle_st s)
            \<and> (std_pow E (cost (result s')) (1 / wasserstein_power (params s))
                 - std_pow E (cost (result s') - real (num_bidders s) * get_epsilon E (oracle_st s))
                     (1 / wasserstein_power (params s)))
               / std_pow E (cost (result s') - real (num_bidders s) * get_epsilon E (oracle_st s))
                     (1 / wasserstein_power (params s)) \<le> delta (params s))
     \<and> final_relative_error (result s')
         = (if 0 < cost (result s') - real (num_bidders s) * get_epsilon E (oracle_st s)
            then (std_pow E (cost (result s')) (1 / wasserstein_power (params s))
                 - std_pow E (cost (result s') - real (num_bidders s) * get_epsilon E (oracle_st s))
                     (1 / wasserstein_power (params s)))
               / std_pow E (cost (result s') - real (num_bidders s) * get_epsilon E (oracle_st s))
                     (1 / wasserstein_power (params s))
            else final_relative_error (result s))
     \<and> (brk \<longrightarrow> get_epsilon E (oracle_st s') = get_epsilon E (oracle_st s)
                \<and> final_epsilon (result s') = final_epsilon (result s))
     \<and> (\<not> brk \<longrightarrow>
          get_epsilon E (oracle_st s')
            = scalar_div E (get_epsilon E (oracle_st s)) (epsilon_common_ratio (params s))
          \<and> final_epsilon (result s')
            = scalar_div E (get_epsilon E (oracle_st s)) (epsilon_common_ratio (params s)))"
proof -
  from it obtain s1 s2 C where 1: "flush_assignment E s = Inr s1"
    and 2: "run_auction_phase E fuel s1 = Some (Inr s2)"
    and 3: "getDistanceToQthPowerInternal E s2 = Inr (C, s2\<lparr>result := (result s2)\<lparr>cost := C\<rparr>\<rparr>)"
    and 4: "evaluate_phase E C (s2\<lparr>result := (result s2)\<lparr>cost := C\<rparr>\<rparr>) = (brk, s')"
    by (rule phase_iteration_parts)
  let ?s3 = "s2\<lparr>result := (result s2)\<lparr>cost := C\<rparr>\<rparr>"
  have f: "phase_frame s s2"
    by (rule phase_frame_trans [OF flush_frame [OF 1] run_auction_phase_frame [OF 2]])
  have e: "get_epsilon E (oracle_st s2) = get_epsilon E (oracle_st s)"
    using flush_epsilon [OF k 1] run_auction_phase_epsilon [OF k 2] by simp
  from evaluate_phase_result [OF 4] have c: "cost (result s') = C" by simp
  from f have g: "num_bidders ?s3 = num_bidders s" "params ?s3 = params s"
    "final_relative_error (result ?s3) = final_relative_error (result s)"
    "final_epsilon (result ?s3) = final_epsilon (result s)"
    "get_epsilon E (oracle_st ?s3) = get_epsilon E (oracle_st s)"
    using e by (simp_all add: phase_frame_def)
  from k have se: "\<And>x orc. get_epsilon E (set_epsilon E x orc) = x"
    by (simp add: oracle_keeps_epsilon_def)
  note v = evaluate_phase_verdict [OF 4, unfolded g, folded c]
  from v show ?thesis
    by (cases brk) (simp_all add: se g e)
qed

section \<open>The phase loop as a whole\<close>

lemma phase_loop_Suc_cases:
  assumes "phase_loop E fuel (Suc n) s = Some (Inr (brk, s'))"
  obtains "phase_iteration E fuel s = Some (Inr (True, s'))" "brk"
  | s1 where "phase_iteration E fuel s = Some (Inr (False, s1))"
      "phase_loop E fuel n s1 = Some (Inr (brk, s'))"
  using assms
  by (auto split: option.splits sum.splits prod.splits if_splits)

lemma phase_loop_summary:
  "phase_loop E fuel n s = Some (Inr (brk, s')) \<Longrightarrow>
     bidders s' = bidders s \<and> items s' = items s \<and> num_bidders s' = num_bidders s
     \<and> num_items s' = num_items s \<and> params s' = params s
     \<and> length (bidders_to_items s') = length (bidders_to_items s)
     \<and> length (items_to_bidders s') = length (items_to_bidders s)
     \<and> is_distance_computed s' = is_distance_computed s
     \<and> start_epsilon (result s') = start_epsilon (result s)
     \<and> (n = 0 \<longrightarrow> s' = s \<and> \<not> brk)
     \<and> (0 < n \<longrightarrow> cost (result s') = matching_cost E s' \<and> complete_matching s')"
proof (induction n arbitrary: s)
  case 0
  then show ?case by simp
next
  case (Suc n)
  from Suc.prems show ?case
  proof (cases rule: phase_loop_Suc_cases)
    case 1
    from phase_iteration_summary [OF 1(1)] show ?thesis by simp
  next
    case (2 s1)
    note u = phase_iteration_summary [OF 2(1)]
    note h = Suc.IH [OF 2(2)]
    show ?thesis
    proof (cases n)
      case 0
      with h have "s' = s1" by simp
      with u show ?thesis by simp
    next
      case (Suc m)
      with h u show ?thesis by simp
    qed
  qed
qed



lemma epsilon_sequence_Suc_cases:
  obtains "epsilon_sequence E fuel (Suc n) s = [get_epsilon E (oracle_st s)]"
  | s1 where "phase_iteration E fuel s = Some (Inr (False, s1))"
      "epsilon_sequence E fuel (Suc n) s = get_epsilon E (oracle_st s) # epsilon_sequence E fuel n s1"
proof (cases "phase_iteration E fuel s")
  case None
  then show ?thesis using that(1) by simp
next
  case (Some r)
  show ?thesis
  proof (cases r)
    case (Inl e)
    with Some show ?thesis using that(1) by simp
  next
    case (Inr bs)
    show ?thesis
    proof (cases bs)
      case (Pair b s1)
      with Some Inr show ?thesis using that by (cases b) simp_all
    qed
  qed
qed


lemma begin_phases_result:
  assumes "begin_phases E s = Inr s1"
  shows "bidders s1 = bidders s \<and> items s1 = items s \<and> num_bidders s1 = num_bidders s
     \<and> num_items s1 = num_items s \<and> params s1 = params s
     \<and> bidders_to_items s1 = bidders_to_items s \<and> items_to_bidders s1 = items_to_bidders s
     \<and> unassigned_bidders s1 = unassigned_bidders s
     \<and> is_distance_computed s1 = is_distance_computed s
     \<and> oracle_st s1 = set_epsilon E (initial_epsilon (params s)) (oracle_st s)
     \<and> final_relative_error (result s1) = Real_max
     \<and> start_epsilon (result s1) = get_epsilon E (oracle_st s1)
     \<and> final_epsilon (result s1) = get_epsilon E (oracle_st s1)
     \<and> cost (result s1) = cost (result s)"
  using assms
  by (auto simp: begin_phases_def Let_def split: if_splits)

lemma epsilon_sequence_single:
  "epsilon_sequence E fuel (Suc 0) s = [get_epsilon E (oracle_st s)]"
  by (rule epsilon_sequence_Suc_cases [of E fuel 0 s]) simp_all

lemma epsilon_sequence_two:
  assumes "phase_iteration E fuel s = Some (Inr (False, s1))"
  shows "epsilon_sequence E fuel (Suc (Suc 0)) s
     = [get_epsilon E (oracle_st s), get_epsilon E (oracle_st s1)]"
proof -
  have "epsilon_sequence E fuel (Suc (Suc 0)) s
      = get_epsilon E (oracle_st s) # epsilon_sequence E fuel (Suc 0) s1"
    using assms by simp
  then show ?thesis by (simp only: epsilon_sequence_single)
qed


section \<open>Evaluating the concrete instance\<close>

lemma demo_state_sel [simp]:
  "unassigned_bidders (demo_state p i2b b2i un eps res) = un"
  "result (demo_state p i2b b2i un eps res) = res"
  "num_bidders (demo_state p i2b b2i un eps res) = 2"
  "num_items (demo_state p i2b b2i un eps res) = 2"
  "bidders_to_items (demo_state p i2b b2i un eps res) = b2i"
  "items_to_bidders (demo_state p i2b b2i un eps res) = i2b"
  "oracle_st (demo_state p i2b b2i un eps res) = eps"
  "params (demo_state p i2b b2i un eps res) = p"
  "bidders (demo_state p i2b b2i un eps res) = [0, 0]"
  "items (demo_state p i2b b2i un eps res) = [3, 5]"
  by (simp_all add: demo_state_def)

lemma demo_state_upd [simp]:
  "(demo_state p i2b b2i un eps res)\<lparr>result := res'\<rparr> = demo_state p i2b b2i un eps res'"
  "(demo_state p i2b b2i un eps res)\<lparr>oracle_st := eps'\<rparr> = demo_state p i2b b2i un eps' res"
  "(demo_state p i2b b2i un eps res)\<lparr>bidders_to_items := b2i'\<rparr> = demo_state p i2b b2i' un eps res"
  "(demo_state p i2b b2i un eps res)\<lparr>items_to_bidders := i2b'\<rparr> = demo_state p i2b' b2i un eps res"
  "(demo_state p i2b b2i un eps res)\<lparr>unassigned_bidders := un'\<rparr> = demo_state p i2b b2i un' eps res"
  by (simp_all add: demo_state_def)

lemma demo_result_sel [simp]:
  "cost (demo_result c nr np se fe fre) = c"
  "num_rounds (demo_result c nr np se fe fre) = nr"
  "num_phases (demo_result c nr np se fe fre) = np"
  "start_epsilon (demo_result c nr np se fe fre) = se"
  "final_epsilon (demo_result c nr np se fe fre) = fe"
  "final_relative_error (demo_result c nr np se fe fre) = fre"
  by (simp_all add: demo_result_def)

lemma demo_result_upd [simp]:
  "(demo_result c nr np se fe fre)\<lparr>cost := c'\<rparr> = demo_result c' nr np se fe fre"
  "(demo_result c nr np se fe fre)\<lparr>num_rounds := nr'\<rparr> = demo_result c nr' np se fe fre"
  "(demo_result c nr np se fe fre)\<lparr>num_phases := np'\<rparr> = demo_result c nr np' se fe fre"
  "(demo_result c nr np se fe fre)\<lparr>start_epsilon := se'\<rparr> = demo_result c nr np se' fe fre"
  "(demo_result c nr np se fe fre)\<lparr>final_epsilon := fe'\<rparr> = demo_result c nr np se fe' fre"
  "(demo_result c nr np se fe fre)\<lparr>final_relative_error := fre'\<rparr> = demo_result c nr np se fe fre'"
  by (simp_all add: demo_result_def)

lemma empty_result_demo: "empty_result = demo_result 0 0 0 0 0 Real_max"
  by (simp add: empty_result_def demo_result_def)

lemma demo_env_sel [simp]:
  "DEBUG_AUCTION (demo_env dbg nd) = dbg"
  "NDEBUG (demo_env dbg nd) = nd"
  "get_epsilon (demo_env dbg nd) = (\<lambda>orc. orc)"
  "set_epsilon (demo_env dbg nd) = (\<lambda>e orc. e)"
  "adjust_prices (demo_env dbg nd) = (\<lambda>orc. orc)"
  "set_price (demo_env dbg nd) = (\<lambda>i v orc. orc)"
  "get_optimal_bid (demo_env dbg nd) = (\<lambda>orc b. ((b, 0), orc))"
  "get_prices (demo_env dbg nd) = (\<lambda>orc. [])"
  "set_begin (demo_env dbg nd) = Min"
  "dist_lp (demo_env dbg nd) = (\<lambda>a b p d. \<bar>a - b\<bar>)"
  "std_pow (demo_env dbg nd) = (\<lambda>x y. x powr y)"
  "scalar_div (demo_env dbg nd) = (\<lambda>x y. x / y)"
  "get_id (demo_env dbg nd) = (\<lambda>a. \<lfloor>a\<rfloor>)"
  by (simp_all add: demo_env_def)

lemma demo_begin_in_set: "begin_in_set (demo_env dbg nd)"
  by (simp add: begin_in_set_def)

lemma demo_oracle_keeps_epsilon: "oracle_keeps_epsilon (demo_env dbg nd)"
  by (simp add: oracle_keeps_epsilon_def)

lemma demo_flush:
  "flush_assignment (demo_env dbg False) (demo_state p [x, y] [u, v] {} eps res)
     = Inr (demo_state p [None, None] [None, None] {0, Suc 0} eps res)"
proof -
  have "{0..<2::nat} = {0, Suc 0}" by auto
  then show ?thesis
    by (simp add: flush_assignment_def assert_fails_def Let_def)
qed

lemma demo_round_0:
  "bidding_round (demo_env dbg False)
       (demo_state p [None, None] [None, None] {0, Suc 0} eps (demo_result c nr np se fe fre))
     = Inr (demo_state p [Some 0, None] [Some 0, None] {Suc 0} eps (demo_result c (Suc nr) np se fe fre))"
  by (cases dbg)
     (simp_all add: bidding_round_def assign_item_to_bidder_def
        sanity_check_def check_bidder_def check_item_def assert_fails_def Let_def upt_conv_Cons)

lemma demo_round_1:
  "bidding_round (demo_env dbg False)
       (demo_state p [Some 0, None] [Some 0, None] {Suc 0} eps (demo_result c nr np se fe fre))
     = Inr (demo_state p [Some 0, Some (Suc 0)] [Some 0, Some (Suc 0)] {} eps (demo_result c (Suc nr) np se fe fre))"
  by (cases dbg)
     (simp_all add: bidding_round_def assign_item_to_bidder_def
        sanity_check_def check_bidder_def check_item_def assert_fails_def Let_def upt_conv_Cons)

lemma demo_phase:
  "run_auction_phase (demo_env dbg False) 2
       (demo_state p [None, None] [None, None] {0, Suc 0} eps (demo_result c nr np se fe fre))
     = Some (Inr (demo_state p [Some 0, Some (Suc 0)] [Some 0, Some (Suc 0)] {} eps
                    (demo_result c (Suc (Suc nr)) (Suc np) se fe fre)))"
  by (simp add: run_auction_phase_def numeral_2_eq_2 demo_round_0 demo_round_1
        check_assigned_def upt_conv_Cons)

lemma demo_distance:
  "getDistanceToQthPowerInternal (demo_env dbg False)
       (demo_state p [Some 0, Some (Suc 0)] [Some 0, Some (Suc 0)] {} eps (demo_result c nr np se fe fre))
     = Inr (3 powr wasserstein_power p + 5 powr wasserstein_power p,
            demo_state p [Some 0, Some (Suc 0)] [Some 0, Some (Suc 0)] {} eps
              (demo_result (3 powr wasserstein_power p + 5 powr wasserstein_power p) nr np se fe fre))"
  by (cases dbg)
     (simp_all add: getDistanceToQthPowerInternal_def get_item_bidder_cost_def
        sanity_check_def check_bidder_def check_item_def assert_fails_def Let_def upt_conv_Cons)

lemma demo_iteration:
  assumes q: "wasserstein_power p = 1" and e: "0 < eps" "eps < 4"
  shows "phase_iteration (demo_env dbg False) 2
       (demo_state p [x, y] [u, v] {} eps (demo_result c nr np se fe fre))
     = Some (Inr
         (if 2 * eps / (8 - 2 * eps) \<le> delta p
          then (True, demo_state p [Some 0, Some (Suc 0)] [Some 0, Some (Suc 0)] {} eps
                  (demo_result 8 (Suc (Suc nr)) (Suc np) se fe (2 * eps / (8 - 2 * eps))))
          else (False, demo_state p [Some 0, Some (Suc 0)] [Some 0, Some (Suc 0)] {}
                  (eps / epsilon_common_ratio p)
                  (demo_result 8 (Suc (Suc nr)) (Suc np) se (eps / epsilon_common_ratio p)
                     (2 * eps / (8 - 2 * eps))))))"
  using e
  by (simp add: phase_iteration_def demo_flush demo_phase demo_distance q
        evaluate_phase_def decrease_epsilon_def Let_def)

section \<open>Finishing the run\<close>

lemma add_matches_succeeds:
  "\<forall>b \<in> set bs. b < length (bidders s) \<and> b < length (bidders_to_items s)
        \<and> (\<exists>i < length (items s). bidders_to_items s ! b = Some i) \<Longrightarrow>
   \<exists>m'. add_matches E s bs m = Inr m'"
proof (induction bs arbitrary: m)
  case Nil
  then show ?case by simp
next
  case (Cons b bs)
  from Cons.prems obtain i where "b < length (bidders s)" "b < length (bidders_to_items s)"
    "i < length (items s)" "bidders_to_items s ! b = Some i"
    by auto
  then have "get_bidder_id E s b = Inr (get_id E (bidders s ! b))"
    "get_bidders_item_id E s b = Inr (get_id E (items s ! i))"
    by (simp_all add: get_bidder_id_def get_bidders_item_id_def)
  moreover from Cons.IH Cons.prems
  have "\<exists>m'. add_matches E s bs (m @ [(get_id E (bidders s ! b), get_id E (items s ! i))]) = Inr m'"
    by simp
  ultimately show ?case by simp
qed

lemma finish_run_result:
  assumes "finish_run E s = Inr s'"
  shows "bidders_to_items s' = bidders_to_items s \<and> items_to_bidders s' = items_to_bidders s
     \<and> bidders s' = bidders s \<and> items s' = items s \<and> num_bidders s' = num_bidders s
     \<and> params s' = params s \<and> cost (result s') = cost (result s)
     \<and> final_relative_error (result s') = final_relative_error (result s)
     \<and> final_epsilon (result s') = final_epsilon (result s)
     \<and> num_phases (result s') = num_phases (result s)"
  using assms
  by (auto simp: finish_run_def compute_distance_def Let_def split: if_splits sum.splits)

lemma finish_run_succeeds:
  assumes "complete_matching s"
  shows "\<exists>s'. finish_run E s = Inr s'"
proof (cases "return_matching (params s)")
  case False
  then show ?thesis by (simp add: finish_run_def Let_def)
next
  case True
  let ?s2 = "s\<lparr>result := compute_distance E (wasserstein_power (params s)) (result s),
                 is_distance_computed := True\<rparr>"
  from assms have "\<forall>b \<in> set [0..<num_bidders ?s2]. b < length (bidders ?s2)
        \<and> b < length (bidders_to_items ?s2)
        \<and> (\<exists>i < length (items ?s2). bidders_to_items ?s2 ! b = Some i)"
    by (auto simp: complete_matching_def)
  from add_matches_succeeds [OF this, of E "[]"]
  obtain m' where "add_matches E ?s2 [0..<num_bidders ?s2] [] = Inr m'" by blast
  with True show ?thesis by (simp add: finish_run_def Let_def)
qed

lemma matching_cost_cong:
  assumes "bidders_to_items s' = bidders_to_items s" "bidders s' = bidders s" "items s' = items s"
    "num_bidders s' = num_bidders s" "params s' = params s"
  shows "matching_cost E s' = matching_cost E s" "complete_matching s' = complete_matching s"
  using assms by (simp_all add: matching_cost_def complete_matching_def)

lemma run_auction_phases_parts:
  assumes "run_auction_phases E fuel s = Some (Inr s')"
  obtains s1 brk s2 where "begin_phases E s = Inr s1"
    and "phase_loop E fuel (nat (max_num_phases (params s1))) s1 = Some (Inr (brk, s2))"
    and "s' = s2\<lparr>result := (result s2)\<lparr>prices := get_prices E (oracle_st s2)\<rparr>\<rparr>"
  using assms
  by (auto simp: run_auction_phases_def split: sum.splits option.splits prod.splits)

lemma auction_core_single:
  assumes c: "AuctionRunnerGS E A B p prices0 = Inr s" and n: "num_bidders s = 1"
      and r: "auction_core E fuel s = Some (Inr s2)"
  shows "cost (result s2) = matching_cost E s2 \<and> complete_matching s2"
proof -
  note cs = constructor_state [OF c]
  from r n obtain sa cv where a: "assign_item_to_bidder E 0 0 s = Inr sa"
    and g: "get_item_bidder_cost E sa (Some 0) (Some 0) False = Inr cv"
    and s2: "s2 = sa\<lparr>result := (result sa)\<lparr>cost := cv\<rparr>\<rparr>"
    by (auto simp: auction_core_def split: sum.splits)
  note fl = assign_fields [OF a] and fr = assign_frame [OF a]
  from fl cs have "0 < length B" by simp
  with cs have i0: "items_to_bidders s ! 0 = None" by simp
  from fl have "bidders_to_items sa = (bidders_to_items s)[0 := Some 0]"
    unfolding i0 by simp
  moreover have "bidders_to_items s = [None]"
  proof -
    from cs n have "length A = Suc 0" by simp
    then have "replicate (length A) (None :: nat option) = [None]" by simp
    with cs show ?thesis by simp
  qed
  ultimately have b: "bidders_to_items sa = [Some 0]" by simp
  from g have rng: "0 < length (bidders sa)" "0 < length (items sa)"
    and cv: "cv = std_pow E (dist_lp E (bidders sa ! 0) (items sa ! 0)
                 (internal_p (params sa)) (dim (params sa))) (wasserstein_power (params sa))"
    by (auto simp: get_item_bidder_cost_def split: if_splits)
  from fr n have n1: "num_bidders sa = 1" by simp
  show ?thesis
    unfolding s2 using b rng cv n1
    by (simp add: matching_cost_def complete_matching_def Suc_le_eq)
qed

lemma auction_core_phases:
  assumes n: "num_bidders s \<noteq> 1"
      and r: "auction_core E fuel s = Some (Inr s2)"
  obtains s1 brk sl where "begin_phases E s = Inr s1"
    and "phase_loop E fuel (nat (max_num_phases (params s))) s1 = Some (Inr (brk, sl))"
    and "s2 = sl\<lparr>result := (result sl)\<lparr>prices := get_prices E (oracle_st sl)\<rparr>\<rparr>"
proof -
  from r n have "run_auction_phases E fuel s = Some (Inr s2)"
    by (auto simp: auction_core_def split: option.splits sum.splits if_splits)
  then obtain s1 brk sl where 1: "begin_phases E s = Inr s1"
    and 2: "phase_loop E fuel (nat (max_num_phases (params s1))) s1 = Some (Inr (brk, sl))"
    and 3: "s2 = sl\<lparr>result := (result sl)\<lparr>prices := get_prices E (oracle_st sl)\<rparr>\<rparr>"
    by (rule run_auction_phases_parts)
  from begin_phases_result [OF 1] have "params s1 = params s" by simp
  with 1 2 3 that show thesis by simp
qed

lemma run_auction_parts:
  assumes "run_auction E fuel s = Some (Inr s')"
  obtains s2 where "auction_core E fuel s = Some (Inr s2)" "finish_run E s2 = Inr s'"
  using assms by (auto simp: run_auction_def split: option.splits sum.splits)





section \<open>Runs of the concrete instance\<close>

lemma demo_result_prices [simp]:
  "(demo_result c nr np se fe fre)\<lparr>prices := []\<rparr> = demo_result c nr np se fe fre"
  by (simp add: demo_result_def)

lemma demo_constructor:
  assumes "0 < initial_epsilon p" "0 < epsilon_common_ratio p"
  shows "AuctionRunnerGS (demo_env dbg False) [0, 0] [3, 5] p []
     = Inr (demo_state p [None, None] [None, None] {} 0 (demo_result 0 0 0 0 0 Real_max))"
  using assms
  by (simp add: AuctionRunnerGS_def assert_fails_def Let_def demo_env_def demo_state_def
        empty_result_demo)

lemma demo_begin:
  assumes "0 < initial_epsilon p"
  shows "begin_phases (demo_env dbg False)
       (demo_state p i2b b2i un eps (demo_result c nr np se fe fre))
     = Inr (demo_state p i2b b2i un (initial_epsilon p)
              (demo_result c nr np (initial_epsilon p) (initial_epsilon p) Real_max))"
  using assms by (simp add: begin_phases_def assert_fails_def Let_def)

lemma demo_loop_once:
  assumes "wasserstein_power p = 1" "0 < eps" "eps < 4" "\<not> 2 * eps / (8 - 2 * eps) \<le> delta p"
  shows "phase_loop (demo_env dbg False) 2 (Suc 0)
       (demo_state p [x, y] [u, v] {} eps (demo_result c nr np se fe fre))
     = Some (Inr (False, demo_state p [Some 0, Some (Suc 0)] [Some 0, Some (Suc 0)] {}
                  (eps / epsilon_common_ratio p)
                  (demo_result 8 (Suc (Suc nr)) (Suc np) se (eps / epsilon_common_ratio p)
                     (2 * eps / (8 - 2 * eps)))))"
  using assms by (simp add: demo_iteration)

lemma demo_core_once:
  assumes "wasserstein_power p = 1" "initial_epsilon p = 1" "\<not> 1 / 3 \<le> delta p"
    "max_num_phases p = 1"
  shows "auction_core (demo_env False False) 2
       (demo_state p [None, None] [None, None] {} 0 (demo_result 0 0 0 0 0 Real_max))
     = Some (Inr (demo_state p [Some 0, Some (Suc 0)] [Some 0, Some (Suc 0)] {}
                  (1 / epsilon_common_ratio p)
                  (demo_result 8 (Suc (Suc 0)) (Suc 0) 1 (1 / epsilon_common_ratio p) (1 / 3))))"
proof -
  have b: "begin_phases (demo_env False False)
       (demo_state p [None, None] [None, None] {} 0 (demo_result 0 0 0 0 0 Real_max))
     = Inr (demo_state p [None, None] [None, None] {} 1 (demo_result 0 0 0 1 1 Real_max))"
    using demo_begin [of p False "[None, None]" "[None, None]" "{}" 0 0 0 0 0 0 Real_max] assms(2)
    by simp
  have l: "phase_loop (demo_env False False) 2 (Suc 0)
       (demo_state p [None, None] [None, None] {} 1 (demo_result 0 0 0 1 1 Real_max))
     = Some (Inr (False, demo_state p [Some 0, Some (Suc 0)] [Some 0, Some (Suc 0)] {}
                  (1 / epsilon_common_ratio p)
                  (demo_result 8 (Suc (Suc 0)) (Suc 0) 1 (1 / epsilon_common_ratio p) (1 / 3))))"
    using demo_loop_once [of p 1 False None None None None 0 0 0 1 1 Real_max] assms(1,3)
    by simp
  show ?thesis
    by (simp add: auction_core_def run_auction_phases_def b l assms(4) del: phase_loop.simps)
qed

section \<open>Costs of pairs\<close>

text \<open>
  C9.  When the item index or the bidder index is the sentinel, the call fails with the
  invalid-index error if the tolerate flag is false and returns zero if it is true;
  when both are positions of the point vectors it returns the ground distance to the
  power \<open>q\<close>, whatever the flag.
\<close>

theorem get_item_bidder_cost_sentinel:
  "(item_idx = k_invalid_index \<or> bidder_idx = k_invalid_index \<longrightarrow>
      get_item_bidder_cost E s item_idx bidder_idx False = Inl InvalidIdx
      \<and> get_item_bidder_cost E s item_idx bidder_idx True = Inr 0)
   \<and> (i < length (items s) \<and> b < length (bidders s) \<longrightarrow>
      get_item_bidder_cost E s (Some i) (Some b) tolerate
        = Inr (std_pow E (dist_lp E (bidders s ! b) (items s ! i)
                            (internal_p (params s)) (dim (params s)))
                 (wasserstein_power (params s))))"
  by (auto simp: get_item_bidder_cost_def)

theorem get_item_bidder_cost_sentinel_witness:
  "get_item_bidder_cost (demo_env False False)
       (demo_state demo_params [None, None] [None, None] {0, 1} 1 empty_result) None (Some 1) False
     = Inl InvalidIdx
   \<and> get_item_bidder_cost (demo_env False False)
       (demo_state demo_params [None, None] [None, None] {0, 1} 1 empty_result) None (Some 1) True
     = Inr 0
   \<and> get_item_bidder_cost (demo_env False False)
       (demo_state demo_params [None, None] [None, None] {0, 1} 1 empty_result) (Some 1) (Some 0) False
     = Inr 5"
  using get_item_bidder_cost_sentinel
    [of None "Some 1" "demo_env False False"
        "demo_state demo_params [None, None] [None, None] {0, 1} 1 empty_result" 1 0 False]
  by (simp add: demo_env_def demo_state_def demo_params_def)

section \<open>Assigning an item\<close>

text \<open>
  C6.  A call \<open>assign(item, bidder)\<close> on positions of the two arrays, for a bidder
  that holds nothing and is not recorded as the holder of the item, with the
  consistency check passing (it always does when compiled out): the call returns; a
  previous holder \<open>old\<close> of the item loses its entry and joins the unassigned set;
  the bidder holds the item and the item records the bidder; the bidder is not in the
  unassigned set; the round counter grows by exactly one; no other entry of either
  array and no other membership of the set changes.
\<close>

theorem assign_item_to_bidder_effect:
  assumes "bidder_idx < length (bidders_to_items s)"
      and "item_idx < length (items_to_bidders s)"
      and "bidders_to_items s ! bidder_idx = k_invalid_index"
      and "items_to_bidders s ! item_idx \<noteq> Some bidder_idx"
      and "\<forall>old. items_to_bidders s ! item_idx = Some old \<longrightarrow> old < length (bidders_to_items s)"
      and "sanity_check E s = Inr ()"
  shows "\<exists>s'. assign_item_to_bidder E item_idx bidder_idx s = Inr s'
     \<and> (\<forall>old. items_to_bidders s ! item_idx = Some old \<longrightarrow>
           bidders_to_items s' ! old = k_invalid_index \<and> old \<in> unassigned_bidders s')
     \<and> bidders_to_items s' ! bidder_idx = Some item_idx
     \<and> items_to_bidders s' ! item_idx = Some bidder_idx
     \<and> bidder_idx \<notin> unassigned_bidders s'
     \<and> num_rounds (result s') = num_rounds (result s) + 1
     \<and> length (bidders_to_items s') = length (bidders_to_items s)
     \<and> length (items_to_bidders s') = length (items_to_bidders s)
     \<and> (\<forall>b. b \<noteq> bidder_idx \<and> items_to_bidders s ! item_idx \<noteq> Some b \<longrightarrow>
           bidders_to_items s' ! b = bidders_to_items s ! b
           \<and> (b \<in> unassigned_bidders s' \<longleftrightarrow> b \<in> unassigned_bidders s))
     \<and> (\<forall>i. i \<noteq> item_idx \<longrightarrow> items_to_bidders s' ! i = items_to_bidders s ! i)"
proof (cases "items_to_bidders s ! item_idx")
  case None
  with assms show ?thesis
    by (simp add: assign_item_to_bidder_def assert_fails_def Let_def)
next
  case (Some old)
  with assms have "old < length (bidders_to_items s)" "old \<noteq> bidder_idx"
    by auto
  with Some assms show ?thesis
    by (simp add: assign_item_to_bidder_def assert_fails_def Let_def nth_list_update)
qed

theorem assign_item_to_bidder_effect_witness:
  "\<exists>s'. assign_item_to_bidder (demo_env True False) 0 0
           (demo_state demo_params [Some 1, None] [None, Some 0] {0} 1 empty_result) = Inr s'
     \<and> bidders_to_items s' = [Some 0, None] \<and> items_to_bidders s' = [Some 0, None]
     \<and> 1 \<in> unassigned_bidders s' \<and> 0 \<notin> unassigned_bidders s' \<and> num_rounds (result s') = 1"
proof -
  have "sanity_check (demo_env True False)
          (demo_state demo_params [Some 1, None] [None, Some 0] {0} 1 empty_result) = Inr ()"
    by (simp add: sanity_check_def check_bidder_def check_item_def demo_env_def demo_state_def
          assert_fails_def upt_conv_Cons)
  from assign_item_to_bidder_effect
      [of 0 "demo_state demo_params [Some 1, None] [None, Some 0] {0} 1 empty_result" 0
          "demo_env True False", OF _ _ _ _ _ this]
  obtain s' where "assign_item_to_bidder (demo_env True False) 0 0
           (demo_state demo_params [Some 1, None] [None, Some 0] {0} 1 empty_result) = Inr s'"
    "bidders_to_items s' ! 1 = None" "1 \<in> unassigned_bidders s'"
    "bidders_to_items s' ! 0 = Some 0" "items_to_bidders s' ! 0 = Some 0"
    "0 \<notin> unassigned_bidders s'" "num_rounds (result s') = 1"
    "length (bidders_to_items s') = 2" "length (items_to_bidders s') = 2"
    "items_to_bidders s' ! 1 = None"
    by (auto simp: demo_state_def empty_result_def)
  moreover from this have "bidders_to_items s' = [Some 0, None]" "items_to_bidders s' = [Some 0, None]"
    by (auto simp: list_eq_iff_nth_eq less_Suc_eq numeral_2_eq_2)
  ultimately show ?thesis by blast
qed

section \<open>The configured initial epsilon\<close>

text \<open>
  C2 as stated fails: a negative \<open>initial_epsilon\<close> is not replaced.  With
  assertions enabled the constructor stops at its assertion; with assertions compiled
  out it keeps the negative value, although a quarter of \<open>max_val_\<close> would be 1.
\<close>

theorem constructor_negative_epsilon_counterexample:
  "AuctionRunnerGS (demo_env False False) [0, 0] [3, 5] (demo_params\<lparr>initial_epsilon := - 1\<rparr>) []
     = Inl AssertionFailed
   \<and> AuctionRunnerGS (demo_env False True) [0, 0] [3, 5] (demo_params\<lparr>initial_epsilon := - 1\<rparr>) []
     = Inr (demo_state (demo_params\<lparr>initial_epsilon := - 1, epsilon_common_ratio := 5\<rparr>)
              [None, None] [None, None] {} 0 empty_result)
   \<and> max_val (demo_env False True) 0 / 4 = 1"
  by (simp add: AuctionRunnerGS_def demo_env_def demo_params_def assert_fails_def demo_state_def)

text \<open>
  C2, amended.  An \<open>initial_epsilon\<close> that is exactly zero is replaced by a quarter
  of the oracle's \<open>max_val_\<close>, and the constructor returns when that quarter is
  positive (the ratio not negative, the two point sets of equal size).  A negative value is not replaced: the constructor
  fails its assertion, or keeps the negative value when assertions are compiled out.
  Whenever the constructor returns with assertions enabled, the epsilon it leaves in
  the parameters is positive.
\<close>

theorem constructor_initial_epsilon:
  "(initial_epsilon p = 0 \<longrightarrow>
      (\<forall>s. AuctionRunnerGS E A B p prices0 = Inr s \<longrightarrow>
         initial_epsilon (params s) = max_val E (oracle_st s) / 4))
   \<and> (initial_epsilon p = 0 \<and> 0 \<le> epsilon_common_ratio p \<and> length A = length B
        \<and> 0 < max_val E (if prices0 \<noteq> [] then set_prices E prices0 (new_oracle E A B p)
                          else new_oracle E A B p) \<longrightarrow>
      (\<exists>s. AuctionRunnerGS E A B p prices0 = Inr s))
   \<and> (initial_epsilon p < 0 \<longrightarrow>
      (if NDEBUG E
       then \<exists>s. AuctionRunnerGS E A B p prices0 = Inr s \<and> initial_epsilon (params s) = initial_epsilon p
       else AuctionRunnerGS E A B p prices0 = Inl AssertionFailed))
   \<and> (\<forall>s. \<not> NDEBUG E \<and> AuctionRunnerGS E A B p prices0 = Inr s \<longrightarrow> initial_epsilon (params s) > 0)"
  by (auto simp: AuctionRunnerGS_def assert_fails_def Let_def split: if_splits)

theorem constructor_initial_epsilon_witness:
  "initial_epsilon demo_params = 0
   \<and> AuctionRunnerGS (demo_env False False) [0, 0] [3, 5] demo_params []
       = Inr (demo_state (demo_params\<lparr>initial_epsilon := 1, epsilon_common_ratio := 5\<rparr>)
                [None, None] [None, None] {} 0 empty_result)
   \<and> initial_epsilon (demo_params\<lparr>initial_epsilon := - 1\<rparr>) < 0
   \<and> AuctionRunnerGS (demo_env False False) [0, 0] [3, 5] (demo_params\<lparr>initial_epsilon := - 1\<rparr>) []
       = Inl AssertionFailed"
  using constructor_initial_epsilon [of demo_params "demo_env False False" "[0, 0]" "[3, 5]" "[]"]
        constructor_initial_epsilon [of "demo_params\<lparr>initial_epsilon := - 1\<rparr>" "demo_env False False" "[0, 0]" "[3, 5]" "[]"]
  by (simp add: AuctionRunnerGS_def demo_env_def demo_params_def assert_fails_def demo_state_def)

section \<open>The single-point case\<close>

text \<open>
  C7.  For one bidder and one item, the run of a freshly constructed runner returns
  without any fuel, bidder 0 holds item 0, the cost is the distance of the two points
  to the power \<open>q\<close>, and no phase is counted.
\<close>

theorem single_point_run:
  assumes "AuctionRunnerGS E [a] [b] p prices0 = Inr s"
  shows "\<exists>s'. run_auction E fuel s = Some (Inr s')
     \<and> bidders_to_items s' = [Some 0] \<and> items_to_bidders s' = [Some 0]
     \<and> cost (result s') = std_pow E (dist_lp E a b (internal_p p) (dim p)) (wasserstein_power p)
     \<and> num_phases (result s') = 0"
proof -
  note c = constructor_state [OF assms]
  have sc: "sanity_check E s = Inr ()"
    using c by (intro sanity_check_single_fresh) simp_all
  define s1 where "s1 = s\<lparr>result := (result s)\<lparr>num_rounds := num_rounds (result s) + 1\<rparr>,
      bidders_to_items := [Some 0], items_to_bidders := [Some 0], unassigned_bidders := {}\<rparr>"
  have a: "assign_item_to_bidder E 0 0 s = Inr s1"
    using c sc by (simp add: assign_item_to_bidder_def assert_fails_def Let_def s1_def)
  have g: "get_item_bidder_cost E s1 (Some 0) (Some 0) False
      = Inr (std_pow E (dist_lp E a b (internal_p p) (dim p)) (wasserstein_power p))"
    using c by (simp add: get_item_bidder_cost_def s1_def)
  have core: "auction_core E fuel s = Some (Inr (s1\<lparr>result := (result s1)\<lparr>cost :=
      std_pow E (dist_lp E a b (internal_p p) (dim p)) (wasserstein_power p)\<rparr>\<rparr>))"
    using c a g by (simp add: auction_core_def)
  show ?thesis
    using c
    by (simp add: run_auction_def core finish_run_def compute_distance_def s1_def
        get_bidder_id_def get_bidders_item_id_def empty_result_def Let_def)
qed

theorem single_point_run_witness:
  "AuctionRunnerGS (demo_env True False) [0] [3] demo_params []
     = Inr \<lparr>bidders = [0], items = [3], num_bidders = 1, num_items = 1,
            items_to_bidders = [None], bidders_to_items = [None],
            params = demo_params\<lparr>initial_epsilon := 1, epsilon_common_ratio := 5\<rparr>, oracle_st = 0,
            unassigned_bidders = {}, result = empty_result, is_distance_computed = False\<rparr>
   \<and> (\<exists>s'. run_auction (demo_env True False) 0
              \<lparr>bidders = [0], items = [3], num_bidders = 1, num_items = 1,
               items_to_bidders = [None], bidders_to_items = [None],
               params = demo_params\<lparr>initial_epsilon := 1, epsilon_common_ratio := 5\<rparr>, oracle_st = 0,
               unassigned_bidders = {}, result = empty_result, is_distance_computed = False\<rparr>
            = Some (Inr s')
        \<and> bidders_to_items s' = [Some 0] \<and> items_to_bidders s' = [Some 0]
        \<and> cost (result s') = 3 \<and> num_phases (result s') = 0)"
proof -
  have c: "AuctionRunnerGS (demo_env True False) [0] [3] demo_params []
     = Inr \<lparr>bidders = [0], items = [3], num_bidders = 1, num_items = 1,
            items_to_bidders = [None], bidders_to_items = [None],
            params = demo_params\<lparr>initial_epsilon := 1, epsilon_common_ratio := 5\<rparr>, oracle_st = 0,
            unassigned_bidders = {}, result = empty_result, is_distance_computed = False\<rparr>"
    by (simp add: AuctionRunnerGS_def demo_env_def demo_params_def assert_fails_def)
  show ?thesis
    using c single_point_run [OF c, of 0]
    by (simp add: demo_env_def demo_params_def)
qed

section \<open>A completed phase is a perfect matching\<close>

text \<open>
  C5.  Start from a ledger whose two arrays have \<open>N\<close> entries and whose unassigned
  set holds bidders only.  After the reset and a phase that ends (the bidding loop
  leaves with the unassigned set empty, within the fuel, without a fault), the
  assignment is a perfect matching: every bidder \<open>b < N\<close> holds an item \<open>i < N\<close>
  with \<open>item_to_bidder[i] = b\<close>, and every value in \<open>[0, N)\<close> occurs exactly once
  in \<open>bidder_to_item\<close>.
\<close>

theorem phase_gives_perfect_matching:
  assumes "begin_in_set E"
      and "length (bidders_to_items s) = num_bidders s"
      and "length (items_to_bidders s) = num_bidders s"
      and "unassigned_bidders s \<subseteq> {..<num_bidders s}"
      and "flush_assignment E s = Inr s1"
      and "run_auction_phase E fuel s1 = Some (Inr s2)"
  shows "perfect_matching s2 \<and> unassigned_bidders s2 = {}"
proof -
  have i1: "ledger_inv s1"
    by (rule flush_gives_ledger_inv [OF assms(2-5)])
  then have "ledger_inv (s1\<lparr>result := (result s1)\<lparr>num_phases := num_phases (result s1) + 1\<rparr>\<rparr>)"
    by simp
  from bidding_loop_ledger_inv [OF assms(1) this run_auction_phase_loop [OF assms(6)]]
  show ?thesis by (simp add: complete_ledger_is_perfect)
qed

theorem phase_gives_perfect_matching_witness:
  "begin_in_set (demo_env True False)
   \<and> flush_assignment (demo_env True False)
        (demo_state demo_params [None, None] [None, None] {} 1 (demo_result 0 0 0 1 1 Real_max))
       = Inr (demo_state demo_params [None, None] [None, None] {0, Suc 0} 1
                (demo_result 0 0 0 1 1 Real_max))
   \<and> run_auction_phase (demo_env True False) 2
        (demo_state demo_params [None, None] [None, None] {0, Suc 0} 1
           (demo_result 0 0 0 1 1 Real_max))
       = Some (Inr (demo_state demo_params [Some 0, Some (Suc 0)] [Some 0, Some (Suc 0)] {} 1
                      (demo_result 0 (Suc (Suc 0)) (Suc 0) 1 1 Real_max)))
   \<and> perfect_matching (demo_state demo_params [Some 0, Some (Suc 0)] [Some 0, Some (Suc 0)] {} 1
                      (demo_result 0 (Suc (Suc 0)) (Suc 0) 1 1 Real_max))"
proof -
  note f = demo_flush [of True demo_params None None None None 1 "demo_result 0 0 0 1 1 Real_max"]
  note p = demo_phase [of True demo_params 1 0 0 0 1 1 Real_max]
  from phase_gives_perfect_matching [OF demo_begin_in_set _ _ _ f p]
  have "perfect_matching (demo_state demo_params [Some 0, Some (Suc 0)] [Some 0, Some (Suc 0)] {} 1
                      (demo_result 0 (Suc (Suc 0)) (Suc 0) 1 1 Real_max))"
    by simp
  with f p demo_begin_in_set [of True False] show ?thesis by blast
qed

section \<open>The convergence test of the phase loop\<close>

text \<open>
  C4.  Let a loop body complete: the phase has produced its matching, of cost \<open>C\<close>,
  bidding at epsilon \<open>e\<close>.  The recorded cost is the cost of the matching.  With
  \<open>D = C - N\<cdot>e\<close>, the relative error is computed only if \<open>D > 0\<close>, and is then
  \<open>(C\<^sup>1\<^sup>/\<^sup>q - D\<^sup>1\<^sup>/\<^sup>q) / D\<^sup>1\<^sup>/\<^sup>q\<close>; otherwise the recorded error is left as it was.
  The body leaves the loop exactly when \<open>D > 0\<close> and that value is at most
  \<open>delta\<close>, keeping epsilon; otherwise epsilon becomes \<open>e / epsilon_common_ratio\<close>,
  the quotient being the one the scalar type computes,
  and the loop goes on with the next phase if one is left and ends if none is.
\<close>

theorem phase_iteration_convergence_test:
  assumes "oracle_keeps_epsilon E"
      and "phase_iteration E fuel s = Some (Inr (brk, s'))"
  shows "cost (result s') = matching_cost E s'
     \<and> (let C = cost (result s'); e = get_epsilon E (oracle_st s);
            q = wasserstein_power (params s); D = C - real (num_bidders s) * e;
            rel = (std_pow E C (1 / q) - std_pow E D (1 / q)) / std_pow E D (1 / q)
        in (0 < D \<longrightarrow> final_relative_error (result s') = rel)
         \<and> (\<not> 0 < D \<longrightarrow> final_relative_error (result s') = final_relative_error (result s))
         \<and> (brk \<longleftrightarrow> 0 < D \<and> rel \<le> delta (params s))
         \<and> (brk \<longrightarrow> get_epsilon E (oracle_st s') = e)
         \<and> (\<not> brk \<longrightarrow> get_epsilon E (oracle_st s')
                         = scalar_div E e (epsilon_common_ratio (params s)))
         \<and> phase_loop E fuel (Suc n) s
             = (if brk then Some (Inr (True, s')) else phase_loop E fuel n s')
         \<and> phase_loop E fuel 0 s' = Some (Inr (False, s')))"
proof -
  note v = phase_iteration_verdict [OF assms]
  note u = phase_iteration_summary [OF assms(2)]
  have l: "phase_loop E fuel (Suc n) s
             = (if brk then Some (Inr (True, s')) else phase_loop E fuel n s')"
    using assms(2) by simp
  have c: "cost (result s') = matching_cost E s'" using u by simp
  show ?thesis
    unfolding Let_def
    apply (intro conjI)
    subgoal by (rule c)
    subgoal using v by simp
    subgoal using v by simp
    subgoal using v by blast
    subgoal using v by simp
    subgoal using v by simp
    subgoal by (rule l)
    subgoal by simp
    done
qed

theorem phase_iteration_convergence_test_witness:
  "oracle_keeps_epsilon (demo_env False False)
   \<and> phase_iteration (demo_env False False) 2
        (demo_state (demo_params\<lparr>initial_epsilon := 1, epsilon_common_ratio := 5\<rparr>)
           [None, None] [None, None] {} 1 (demo_result 0 0 0 1 1 Real_max))
       = Some (Inr (False,
           demo_state (demo_params\<lparr>initial_epsilon := 1, epsilon_common_ratio := 5\<rparr>)
             [Some 0, Some (Suc 0)] [Some 0, Some (Suc 0)] {} (1 / 5)
             (demo_result 8 (Suc (Suc 0)) (Suc 0) 1 (1 / 5) (1 / 3))))
   \<and> phase_iteration (demo_env False False) 2
        (demo_state (demo_params\<lparr>delta := 1 / 2\<rparr>)
           [None, None] [None, None] {} 1 (demo_result 0 0 0 1 1 Real_max))
       = Some (Inr (True,
           demo_state (demo_params\<lparr>delta := 1 / 2\<rparr>)
             [Some 0, Some (Suc 0)] [Some 0, Some (Suc 0)] {} 1
             (demo_result 8 (Suc (Suc 0)) (Suc 0) 1 1 (1 / 3))))
   \<and> matching_cost (demo_env False False)
        (demo_state (demo_params\<lparr>delta := 1 / 2\<rparr>)
             [Some 0, Some (Suc 0)] [Some 0, Some (Suc 0)] {} 1
             (demo_result 8 (Suc (Suc 0)) (Suc 0) 1 1 (1 / 3))) = 8"
proof -
  have a: "phase_iteration (demo_env False False) 2
        (demo_state (demo_params\<lparr>initial_epsilon := 1, epsilon_common_ratio := 5\<rparr>)
           [None, None] [None, None] {} 1 (demo_result 0 0 0 1 1 Real_max))
       = Some (Inr (False,
           demo_state (demo_params\<lparr>initial_epsilon := 1, epsilon_common_ratio := 5\<rparr>)
             [Some 0, Some (Suc 0)] [Some 0, Some (Suc 0)] {} (1 / 5)
             (demo_result 8 (Suc (Suc 0)) (Suc 0) 1 (1 / 5) (1 / 3))))"
    by (subst demo_iteration) (simp_all add: demo_params_def)
  have b: "phase_iteration (demo_env False False) 2
        (demo_state (demo_params\<lparr>delta := 1 / 2\<rparr>)
           [None, None] [None, None] {} 1 (demo_result 0 0 0 1 1 Real_max))
       = Some (Inr (True,
           demo_state (demo_params\<lparr>delta := 1 / 2\<rparr>)
             [Some 0, Some (Suc 0)] [Some 0, Some (Suc 0)] {} 1
             (demo_result 8 (Suc (Suc 0)) (Suc 0) 1 1 (1 / 3))))"
    by (subst demo_iteration) (simp_all add: demo_params_def)
  from phase_iteration_convergence_test [OF demo_oracle_keeps_epsilon b, of 0]
  have "matching_cost (demo_env False False)
        (demo_state (demo_params\<lparr>delta := 1 / 2\<rparr>)
             [Some 0, Some (Suc 0)] [Some 0, Some (Suc 0)] {} 1
             (demo_result 8 (Suc (Suc 0)) (Suc 0) 1 1 (1 / 3))) = 8"
    by simp
  with a b demo_oracle_keeps_epsilon [of False False]
    phase_iteration_convergence_test [OF demo_oracle_keeps_epsilon a, of 0]
  show ?thesis by blast
qed

section \<open>Cost consistency\<close>

text \<open>
  C8.  When the run of a freshly constructed runner on a non-empty input returns and
  its final matching is complete, the cost in the result is the sum over all bidders
  of the distance to the assigned item, to the power \<open>q\<close>.
\<close>

theorem run_cost_consistent:
  assumes c: "AuctionRunnerGS E A B p prices0 = Inr s"
      and ne: "A \<noteq> []"
      and r: "run_auction E fuel s = Some (Inr s')"
      and m: "\<forall>b < num_bidders s'. bidders_to_items s' ! b \<noteq> k_invalid_index"
  shows "complete_matching s' \<and> cost (result s') = matching_cost E s'"
proof -
  note cs = constructor_state [OF c]
  from r obtain s2 where core: "auction_core E fuel s = Some (Inr s2)"
    and fin: "finish_run E s2 = Inr s'"
    by (rule run_auction_parts)
  note f = finish_run_result [OF fin]
  have mc: "matching_cost E s' = matching_cost E s2"
    "complete_matching s' = complete_matching s2"
    using f by (intro matching_cost_cong; simp)+
  have "cost (result s2) = matching_cost E s2 \<and> complete_matching s2"
  proof (cases "num_bidders s = 1")
    case True
    from auction_core_single [OF c True core] show ?thesis .
  next
    case False
    from False core obtain s1 brk sl where 1: "begin_phases E s = Inr s1"
      and 2: "phase_loop E fuel (nat (max_num_phases (params s))) s1 = Some (Inr (brk, sl))"
      and 3: "s2 = sl\<lparr>result := (result sl)\<lparr>prices := get_prices E (oracle_st sl)\<rparr>\<rparr>"
      by (rule auction_core_phases)
    note b = begin_phases_result [OF 1] and l = phase_loop_summary [OF 2]
    have "0 < nat (max_num_phases (params s))"
    proof (rule ccontr)
      assume "\<not> 0 < nat (max_num_phases (params s))"
      with l have "sl = s1" by simp
      with 3 b f cs have "bidders_to_items s' = replicate (length A) None"
        "num_bidders s' = length A" by simp_all
      with m ne show False by (cases A) auto
    qed
    with l 3 show ?thesis by simp
  qed
  with mc f show ?thesis by simp
qed

theorem run_cost_consistent_witness:
  "AuctionRunnerGS (demo_env False False) [0, 0] [3, 5]
       (demo_params\<lparr>initial_epsilon := 1, epsilon_common_ratio := 5\<rparr>) []
     = Inr (demo_state (demo_params\<lparr>initial_epsilon := 1, epsilon_common_ratio := 5\<rparr>)
              [None, None] [None, None] {} 0 (demo_result 0 0 0 0 0 Real_max))
   \<and> (\<exists>s'. run_auction (demo_env False False) 2
              (demo_state (demo_params\<lparr>initial_epsilon := 1, epsilon_common_ratio := 5\<rparr>)
                 [None, None] [None, None] {} 0 (demo_result 0 0 0 0 0 Real_max))
            = Some (Inr s')
        \<and> bidders_to_items s' = [Some 0, Some (Suc 0)]
        \<and> cost (result s') = 8 \<and> matching_cost (demo_env False False) s' = 8)"
proof -
  let ?P = "demo_params\<lparr>initial_epsilon := 1, epsilon_common_ratio := 5\<rparr>"
  let ?S0 = "demo_state ?P [None, None] [None, None] {} 0 (demo_result 0 0 0 0 0 Real_max)"
  let ?S2 = "demo_state ?P [Some 0, Some (Suc 0)] [Some 0, Some (Suc 0)] {}
                  (1 / epsilon_common_ratio ?P)
                  (demo_result 8 (Suc (Suc 0)) (Suc 0) 1 (1 / epsilon_common_ratio ?P) (1 / 3))"
  have c: "AuctionRunnerGS (demo_env False False) [0, 0] [3, 5] ?P [] = Inr ?S0"
    by (rule demo_constructor) (simp_all add: demo_params_def)
  have core: "auction_core (demo_env False False) 2 ?S0 = Some (Inr ?S2)"
    by (rule demo_core_once) (simp_all add: demo_params_def)
  have "complete_matching ?S2"
    by (simp add: complete_matching_def less_Suc_eq numeral_2_eq_2)
  from finish_run_succeeds [OF this]
  obtain s' where fin: "finish_run (demo_env False False) ?S2 = Inr s'" by blast
  then have run: "run_auction (demo_env False False) 2 ?S0 = Some (Inr s')"
    by (simp add: run_auction_def core)
  note f = finish_run_result [OF fin]
  from f have m: "\<forall>b < num_bidders s'. bidders_to_items s' ! b \<noteq> None"
    by (simp add: less_Suc_eq numeral_2_eq_2)
  from run_cost_consistent [OF c _ run m] f
  have "cost (result s') = 8" "matching_cost (demo_env False False) s' = 8"
    "bidders_to_items s' = [Some 0, Some (Suc 0)]"
    by simp_all
  with c run show ?thesis by blast
qed

section \<open>The epsilons of the phases\<close>

text \<open>
  C3.  The claim asks that no phase bids at a larger epsilon than the phase before it,
  and the loop says the same of itself (\<^verbatim>\<open>// decrease epsilon for the next iteration\<close>).
  The code does not keep to it.  The constructor accepts every positive
  \<open>epsilon_common_ratio\<close>, and the loop divides by it: on the accepted configuration
  with initial epsilon \<open>1\<close>, ratio one half and two phases, the first phase does not
  converge and the phases bid at the epsilons \<open>1\<close> and \<open>2\<close>.
\<close>

theorem epsilon_sequence_ratio_half:
  "AuctionRunnerGS (demo_env False False) [0, 0] [3, 5]
       (demo_params\<lparr>initial_epsilon := 1, epsilon_common_ratio := 1 / 2, max_num_phases := 2\<rparr>) []
     = Inr (demo_state
              (demo_params\<lparr>initial_epsilon := 1, epsilon_common_ratio := 1 / 2, max_num_phases := 2\<rparr>)
              [None, None] [None, None] {} 0 (demo_result 0 0 0 0 0 Real_max))
   \<and> begin_phases (demo_env False False)
        (demo_state
           (demo_params\<lparr>initial_epsilon := 1, epsilon_common_ratio := 1 / 2, max_num_phases := 2\<rparr>)
           [None, None] [None, None] {} 0 (demo_result 0 0 0 0 0 Real_max))
     = Inr (demo_state
              (demo_params\<lparr>initial_epsilon := 1, epsilon_common_ratio := 1 / 2, max_num_phases := 2\<rparr>)
              [None, None] [None, None] {} 1 (demo_result 0 0 0 1 1 Real_max))
   \<and> epsilon_sequence (demo_env False False) 2
        (nat (max_num_phases
           (demo_params\<lparr>initial_epsilon := 1, epsilon_common_ratio := 1 / 2, max_num_phases := 2\<rparr>)))
        (demo_state
           (demo_params\<lparr>initial_epsilon := 1, epsilon_common_ratio := 1 / 2, max_num_phases := 2\<rparr>)
           [None, None] [None, None] {} 1 (demo_result 0 0 0 1 1 Real_max))
     = [1, 2]"
proof -
  let ?P = "demo_params\<lparr>initial_epsilon := 1, epsilon_common_ratio := 1 / 2, max_num_phases := 2\<rparr>"
  have c: "AuctionRunnerGS (demo_env False False) [0, 0] [3, 5] ?P []
     = Inr (demo_state ?P [None, None] [None, None] {} 0 (demo_result 0 0 0 0 0 Real_max))"
    by (rule demo_constructor) (simp_all add: demo_params_def)
  have b: "begin_phases (demo_env False False)
        (demo_state ?P [None, None] [None, None] {} 0 (demo_result 0 0 0 0 0 Real_max))
     = Inr (demo_state ?P [None, None] [None, None] {} 1 (demo_result 0 0 0 1 1 Real_max))"
    using demo_begin [of ?P False "[None, None]" "[None, None]" "{}" 0 0 0 0 0 0 Real_max]
    by (simp add: demo_params_def)
  have i: "phase_iteration (demo_env False False) 2
        (demo_state ?P [None, None] [None, None] {} 1 (demo_result 0 0 0 1 1 Real_max))
     = Some (Inr (False, demo_state ?P [Some 0, Some (Suc 0)] [Some 0, Some (Suc 0)] {} 2
                    (demo_result 8 (Suc (Suc 0)) (Suc 0) 1 2 (1 / 3))))"
    by (subst demo_iteration) (simp_all add: demo_params_def)
  have n: "nat (max_num_phases ?P) = Suc (Suc 0)" by (simp add: demo_params_def)
  have "epsilon_sequence (demo_env False False) 2 (nat (max_num_phases ?P))
        (demo_state ?P [None, None] [None, None] {} 1 (demo_result 0 0 0 1 1 Real_max))
     = [1, 2]"
    unfolding n epsilon_sequence_two [OF i] by simp
  with c b show ?thesis by blast
qed

section \<open>The reported final epsilon\<close>




section \<open>Exhausting the phases\<close>




end
